theory Spec2Isabelle
  imports Main "HOL-Library.Word" "HOL-Library.Sublist"
begin

section \<open>Strings\<close>

text \<open>
  A JavaScript string is a sequence of UTF-16 code units. A character outside the Basic
  Multilingual Plane occupies two code units, a high surrogate followed by a low
  surrogate. String literals of the source are written with \<open>lit\<close>; the characters
  that an Isabelle literal cannot hold are given by their code unit.
\<close>

type_synonym jsstring = "16 word list"

definition lit :: "string \<Rightarrow> jsstring" where
  "lit s = map (\<lambda>c. of_nat (of_char c)) s"

definition quote :: "16 word" where
  "quote = 0x27"

definition dquote :: "16 word" where
  "dquote = 0x22"

definition newline :: "16 word" where
  "newline = 0x0A"

definition backslash :: "16 word" where
  "backslash = 0x5C"

definition isAscii :: "16 word \<Rightarrow> bool" where
  "isAscii c = (c \<le> 0x7F)"

definition isHighSurrogate :: "16 word \<Rightarrow> bool" where
  "isHighSurrogate c = (0xD800 \<le> c \<and> c \<le> 0xDBFF)"

definition isLowSurrogate :: "16 word \<Rightarrow> bool" where
  "isLowSurrogate c = (0xDC00 \<le> c \<and> c \<le> 0xDFFF)"

text \<open>
  \<open>String.prototype.trim\<close> removes the code points WhiteSpace and LineTerminator of
  ECMAScript from both ends. All of them lie in the Basic Multilingual Plane.
\<close>

definition isWhiteSpace :: "16 word \<Rightarrow> bool" where
  "isWhiteSpace c =
     (c \<in> set [0x09, 0x0A, 0x0B, 0x0C, 0x0D, 0x20, 0xA0, 0x1680, 0x2028, 0x2029,
                0x202F, 0x205F, 0x3000, 0xFEFF]
      \<or> (0x2000 \<le> c \<and> c \<le> 0x200A))"

definition trim :: "jsstring \<Rightarrow> jsstring" where
  "trim s = rev (dropWhile isWhiteSpace (rev (dropWhile isWhiteSpace s)))"

text \<open>
  \<open>Number.prototype.toString(radix)\<close> on a non-negative integer, for a radix up to 16:
  digits \<open>0\<close> to \<open>9\<close>, then lowercase \<open>a\<close> to \<open>f\<close>, no leading zero.
\<close>

definition digitChar :: "nat \<Rightarrow> 16 word" where
  "digitChar d = (if d < 10 then 0x30 + of_nat d else 0x61 + of_nat (d - 10))"

function toStringRadix :: "nat \<Rightarrow> nat \<Rightarrow> jsstring" where
  "toStringRadix r n =
     (if n < r \<or> r < 2 then [digitChar n]
      else toStringRadix r (n div r) @ [digitChar (n mod r)])"
  by pat_completeness auto
termination
  by (relation "measure snd") auto

declare toStringRadix.simps [simp del]

definition padStart :: "nat \<Rightarrow> 16 word \<Rightarrow> jsstring \<Rightarrow> jsstring" where
  "padStart n c s = replicate (n - length s) c @ s"

text \<open>A number inside a template literal: decimal, with a minus sign when negative.\<close>

definition numberToString :: "int \<Rightarrow> jsstring" where
  "numberToString i =
     (if i < 0 then lit ''-'' @ toStringRadix 10 (nat (- i)) else toStringRadix 10 (nat i))"

section \<open>Errors\<close>

text \<open>
  \<open>InvalidCredential\<close> is the \<open>Error('Invalid DigitalOcean Token')\<close> thrown by
  \<open>sanitizeDigitalOceanToken\<close>. A rejected promise of the provider session or of the
  key-pair generator carries an opaque value.
\<close>

datatype error = InvalidCredential | TransportError nat | KeyPairError nat

section \<open>sanitizeDigitalOceanToken\<close>

definition tokenChar :: "16 word \<Rightarrow> bool" where
  "tokenChar c =
     ((0x41 \<le> c \<and> c \<le> 0x5A) \<or> (0x61 \<le> c \<and> c \<le> 0x7A) \<or> (0x30 \<le> c \<and> c \<le> 0x39)
      \<or> c = 0x5F \<or> c = 0x2F \<or> c = 0x2D)"

text \<open>\<open>/^[A-Za-z0-9_\/-]+$/.test(s)\<close>: one or more characters, all of the class.\<close>

definition pattern_test :: "jsstring \<Rightarrow> bool" where
  "pattern_test s = (s \<noteq> [] \<and> list_all tokenChar s)"

definition sanitizeDigitalOceanToken :: "jsstring \<Rightarrow> error + jsstring" where
  "sanitizeDigitalOceanToken input =
     (let sanitizedInput = trim input
      in if \<not> pattern_test sanitizedInput then Inl InvalidCredential
         else Inr sanitizedInput)"

section \<open>bashEscape\<close>

text \<open>
  The replacer of \<open>bashEscape\<close>, \<open>c => '\\u' + c.charCodeAt(0).toString(16).padStart(4, '0')\<close>,
  applied to a match \<open>c\<close>: only the first code unit of the match is read. A match is
  never empty; on the empty string \<open>charCodeAt(0)\<close> is \<open>NaN\<close>.
\<close>

fun replacer :: "jsstring \<Rightarrow> jsstring" where
  "replacer [] = [backslash, 0x75] @ padStart 4 0x30 (lit ''NaN'')"
| "replacer (c0 # rest) = [backslash, 0x75] @ padStart 4 0x30 (toStringRadix 16 (unat c0))"

text \<open>
  \<open>s.replace(/\P{ASCII}/gu, replacer)\<close>. With the \<open>u\<close> flag the pattern is matched
  against code points: a high surrogate followed by a low surrogate is one code point
  (outside ASCII), every other code unit is a code point of its own, a lone surrogate
  included.
\<close>

fun bashEscape :: "jsstring \<Rightarrow> jsstring" where
  "bashEscape [] = []"
| "bashEscape [c] = (if isAscii c then [c] else replacer [c])"
| "bashEscape (c # d # s) =
     (if isHighSurrogate c \<and> isLowSurrogate d then replacer [c, d] @ bashEscape s
      else if isAscii c then c # bashEscape (d # s)
      else replacer [c] @ bashEscape (d # s))"

section \<open>getInstallScript\<close>

text \<open>
  \<open>watchtowerRefreshSeconds\<close> is modelled for integer values; \<open>None\<close> is an absent
  optional field.
\<close>

record shadowboxSettings =
  imageId :: jsstring
  metricsUrl :: jsstring
  sentryApiUrl :: "jsstring option"
  watchtowerRefreshSeconds :: "int option"

text \<open>
  The install script; \<open>SCRIPT\<close> is the constant \<open>do_install_script.SCRIPT\<close>. The
  conditions of the source test truthiness: an empty string, the number zero and an
  absent field are falsy.
\<close>

definition getInstallScript ::
  "jsstring \<Rightarrow> jsstring \<Rightarrow> jsstring \<Rightarrow> shadowboxSettings \<Rightarrow> error + jsstring" where
  "getInstallScript SCRIPT accessToken name settings =
     (case sanitizeDigitalOceanToken accessToken of
        Inl e \<Rightarrow> Inl e
      | Inr sanitizedAccessToken \<Rightarrow>
          Inr (lit ''#!/bin/bash -eu'' @ [newline] @
               lit ''export DO_ACCESS_TOKEN='' @ [quote] @ sanitizedAccessToken @ [quote, newline] @
               (if imageId settings \<noteq> []
                then lit ''export SB_IMAGE='' @ [quote] @ imageId settings @ [quote, newline]
                else []) @
               (case watchtowerRefreshSeconds settings of
                  Some n \<Rightarrow>
                    if n \<noteq> 0
                    then lit ''export WATCHTOWER_REFRESH_SECONDS='' @ [quote] @ numberToString n
                           @ [quote, newline]
                    else []
                | None \<Rightarrow> []) @
               (case sentryApiUrl settings of
                  Some url \<Rightarrow>
                    if url \<noteq> []
                    then lit ''export SENTRY_API_URL='' @ [quote] @ url @ [quote, newline]
                    else []
                | None \<Rightarrow> []) @
               (if metricsUrl settings \<noteq> []
                then lit ''export SB_METRICS_URL='' @ [quote] @ metricsUrl settings @ [quote, newline]
                else []) @
               lit ''export SB_DEFAULT_SERVER_NAME='' @ [dquote] @ lit ''$(printf '' @ [quote]
                 @ bashEscape name @ [quote] @ lit '')'' @ [dquote, newline] @
               SCRIPT))"

section \<open>The provider session and the other collaborators\<close>

record session =
  session_accessToken :: jsstring

definition RestApiSession :: "jsstring \<Rightarrow> session" where
  "RestApiSession token = \<lparr>session_accessToken = token\<rparr>"

record accountInfo =
  status :: jsstring
  email :: "jsstring option"
  email_verified :: bool

record regionInfo =
  slug :: jsstring
  available :: bool
  sizes :: "jsstring list"

record keyPair =
  keyPair_public :: jsstring
  keyPair_private :: jsstring

record dropletSpec =
  installCommand :: jsstring
  spec_size :: jsstring
  spec_image :: jsstring
  spec_tags :: "jsstring list"

text \<open>
  Of a \<open>DropletInfo\<close> this code reads the numeric \<open>id\<close> only; the rest is carried along.
\<close>

record 'x dropletInfo =
  droplet_id :: nat
  droplet_more :: 'x

text \<open>
  The replies of the collaborators: the four calls of the provider session (for
  \<open>createDroplet\<close> the \<open>droplet\<close> of the response), the key-pair generator, and the
  install script constant. \<open>Inl\<close> is a rejected promise.
\<close>

record 'x env =
  getAccount :: "error + accountInfo"
  getRegionInfo :: "error + regionInfo list"
  createDroplet :: "jsstring \<Rightarrow> jsstring \<Rightarrow> jsstring \<Rightarrow> dropletSpec \<Rightarrow> error + 'x dropletInfo"
  getDropletsByTag :: "jsstring \<Rightarrow> error + 'x dropletInfo list"
  generateKeyPair :: "error + keyPair"
  SCRIPT :: jsstring

text \<open>What is observable from outside: console output and calls to collaborators, in order.\<close>

datatype event =
    ConsoleTime jsstring
  | ConsoleDebug jsstring
  | GenerateKeyPair
  | GetAccount
  | GetRegionInfo
  | CreateDroplet jsstring jsstring jsstring dropletSpec
  | GetDropletsByTag jsstring

fun isProviderCall :: "event \<Rightarrow> bool" where
  "isProviderCall GetAccount = True"
| "isProviderCall GetRegionInfo = True"
| "isProviderCall (CreateDroplet name region key spec) = True"
| "isProviderCall (GetDropletsByTag tag) = True"
| "isProviderCall (ConsoleTime label) = False"
| "isProviderCall (ConsoleDebug message) = False"
| "isProviderCall GenerateKeyPair = False"

section \<open>DigitalOceanAccount\<close>

datatype Status = ACTIVE | EMAIL_UNVERIFIED | MISSING_BILLING_INFORMATION

datatype Region = Region (region_id: jsstring)

record regionOption =
  cloudLocation :: Region
  option_available :: bool

text \<open>
  A \<open>DigitalOceanServer\<close> object: the three arguments of its constructor, and
  \<open>server_ref\<close>, the identity of the object (its place in the order of allocation).
\<close>

record 'x digitalOceanServer =
  server_ref :: nat
  server_id :: jsstring
  server_session :: session
  server_droplet :: "'x dropletInfo"

text \<open>
  The fields of the account object, then what the model keeps of the world around it:
  the next free object identity and the trace of events.
\<close>

record 'x state =
  account_id :: jsstring
  accessToken :: jsstring
  shadowboxSettings :: shadowboxSettings
  debugMode :: bool
  digitalOcean :: session
  servers :: "'x digitalOceanServer list"
  nextRef :: nat
  trace :: "event list"

definition SHADOWBOX_TAG :: jsstring where
  "SHADOWBOX_TAG = lit ''shadowbox''"

definition MACHINE_SIZE :: jsstring where
  "MACHINE_SIZE = lit ''s-1vcpu-1gb''"

definition DigitalOceanAccount ::
  "jsstring \<Rightarrow> jsstring \<Rightarrow> shadowboxSettings \<Rightarrow> bool \<Rightarrow> nat \<Rightarrow> event list \<Rightarrow> 'x state" where
  "DigitalOceanAccount ident token settings debug ref tr =
     \<lparr>account_id = ident, accessToken = token, shadowboxSettings = settings,
      debugMode = debug, digitalOcean = RestApiSession token, servers = [],
      nextRef = ref, trace = tr\<rparr>"

definition emit :: "event list \<Rightarrow> 'x state \<Rightarrow> 'x state" where
  "emit es st = st\<lparr>trace := trace st @ es\<rparr>"

definition getStatus :: "'x env \<Rightarrow> 'x state \<Rightarrow> (error + Status) \<times> 'x state" where
  "getStatus env st =
     (let st1 = emit [GetAccount] st
      in case getAccount env of
           Inl e \<Rightarrow> (Inl e, st1)
         | Inr account \<Rightarrow>
             if status account = lit ''active'' then (Inr ACTIVE, st1)
             else if \<not> email_verified account then (Inr EMAIL_UNVERIFIED, st1)
             else (Inr MISSING_BILLING_INFORMATION, st1))"

text \<open>\<open>Array.prototype.indexOf\<close>: the first index of an equal element, or \<open>-1\<close>.\<close>

fun indexOf :: "'a list \<Rightarrow> 'a \<Rightarrow> int" where
  "indexOf [] x = - 1"
| "indexOf (y # ys) x =
     (if y = x then 0 else (let i = indexOf ys x in if i = - 1 then - 1 else i + 1))"

definition listLocations :: "'x env \<Rightarrow> 'x state \<Rightarrow> (error + regionOption list) \<times> 'x state" where
  "listLocations env st =
     (let st1 = emit [GetRegionInfo] st
      in case getRegionInfo env of
           Inl e \<Rightarrow> (Inl e, st1)
         | Inr regions \<Rightarrow>
             (Inr (map (\<lambda>info. \<lparr>cloudLocation = Region (slug info),
                                 option_available =
                                   (available info \<and> indexOf (sizes info) MACHINE_SIZE \<noteq> - 1)\<rparr>)
                       regions),
              st1))"

definition createDigitalOceanServer ::
  "session \<Rightarrow> 'x dropletInfo \<Rightarrow> 'x state \<Rightarrow> 'x digitalOceanServer \<times> 'x state" where
  "createDigitalOceanServer digitalOcean' dropletInfo st =
     (let server = \<lparr>server_ref = nextRef st,
                     server_id = account_id st @ lit '':'' @ toStringRadix 10 (droplet_id dropletInfo),
                     server_session = digitalOcean',
                     server_droplet = dropletInfo\<rparr>
      in (server, st\<lparr>servers := servers st @ [server], nextRef := Suc (nextRef st)\<rparr>))"

definition debugMessage :: "keyPair \<Rightarrow> jsstring" where
  "debugMessage keyPair =
     lit ''private key for SSH access to new droplet:'' @ [newline]
       @ filter (\<lambda>c. c \<noteq> 0x0D) (keyPair_private keyPair) @ [newline, newline]
       @ lit ''Use '' @ [dquote] @ lit ''ssh -i keyfile root@[ip_address]'' @ [dquote]
       @ lit '' to connect to the machine''"

text \<open>
  \<open>createServer\<close>. The key-pair generation is started and the install script is built
  before anything is awaited, so a token that fails sanitization makes the call throw
  there. The two continuations then run in turn.
\<close>

definition createServer ::
  "'x env \<Rightarrow> Region \<Rightarrow> jsstring \<Rightarrow> 'x state \<Rightarrow> (error + 'x digitalOceanServer) \<times> 'x state" where
  "createServer env region name st =
     (let st1 = emit [ConsoleTime (lit ''activeServer''), ConsoleTime (lit ''servingServer''),
                      GenerateKeyPair] st
      in case getInstallScript (SCRIPT env) (session_accessToken (digitalOcean st1)) name
                (shadowboxSettings st1) of
           Inl e \<Rightarrow> (Inl e, st1)
         | Inr command \<Rightarrow>
             (let dropletSpec = \<lparr>installCommand = command, spec_size = MACHINE_SIZE,
                                  spec_image = lit ''docker-18-04'', spec_tags = [SHADOWBOX_TAG]\<rparr>
              in case generateKeyPair env of
                   Inl e \<Rightarrow> (Inl e, st1)
                 | Inr keyPair \<Rightarrow>
                     (let st2 = (if debugMode st1 then emit [ConsoleDebug (debugMessage keyPair)] st1
                                 else st1);
                          st3 = emit [CreateDroplet name (region_id region) (keyPair_public keyPair)
                                        dropletSpec] st2
                      in case createDroplet env name (region_id region) (keyPair_public keyPair)
                                dropletSpec of
                           Inl e \<Rightarrow> (Inl e, st3)
                         | Inr droplet \<Rightarrow>
                             (let (server, st4) = createDigitalOceanServer (digitalOcean st3) droplet st3
                              in (Inr server, st4)))))"

text \<open>The \<open>droplets.map\<close> of \<open>listServers\<close>, from left to right.\<close>

fun wrapDroplets ::
  "'x dropletInfo list \<Rightarrow> 'x state \<Rightarrow> 'x digitalOceanServer list \<times> 'x state" where
  "wrapDroplets [] st = ([], st)"
| "wrapDroplets (droplet # droplets) st =
     (let (server, st1) = createDigitalOceanServer (digitalOcean st) droplet st;
          (rest, st2) = wrapDroplets droplets st1
      in (server # rest, st2))"

definition listServers ::
  "'x env \<Rightarrow> bool \<Rightarrow> 'x state \<Rightarrow> (error + 'x digitalOceanServer list) \<times> 'x state" where
  "listServers env fetchFromHost st =
     (if \<not> fetchFromHost then (Inr (servers st), st)
      else (let st1 = emit [GetDropletsByTag SHADOWBOX_TAG] st
            in case getDropletsByTag env SHADOWBOX_TAG of
                 Inl e \<Rightarrow> (Inl e, st1)
               | Inr droplets \<Rightarrow>
                   (let (wrapped, st2) = wrapDroplets droplets (st1\<lparr>servers := []\<rparr>)
                    in (Inr wrapped, st2))))"

section \<open>Decoding the escape sequences\<close>

text \<open>
  What the name-escaping transform is measured against: the decoder that reads a
  backslash, the letter \<open>u\<close> and four hexadecimal digits as the code unit of that
  value and leaves every other character as it is. It follows the wording of the
  round-trip law and is no part of the source. Like the shell's \<open>printf\<close>, it reads
  hexadecimal digits of either case.
\<close>

definition hexValue :: "16 word \<Rightarrow> nat option" where
  "hexValue h =
     (if 0x30 \<le> h \<and> h \<le> 0x39 then Some (unat h - 48)
      else if 0x61 \<le> h \<and> h \<le> 0x66 then Some (unat h - 87)
      else if 0x41 \<le> h \<and> h \<le> 0x46 then Some (unat h - 55)
      else None)"

text \<open>The value of the escape sequence that starts a string, if one does.\<close>

fun escapeAt :: "jsstring \<Rightarrow> 16 word option" where
  "escapeAt (b # u # h1 # h2 # h3 # h4 # rest) =
     (if b = backslash \<and> u = 0x75 then
        (case hexValue h1 of None \<Rightarrow> None | Some d1 \<Rightarrow>
         case hexValue h2 of None \<Rightarrow> None | Some d2 \<Rightarrow>
         case hexValue h3 of None \<Rightarrow> None | Some d3 \<Rightarrow>
         case hexValue h4 of None \<Rightarrow> None | Some d4 \<Rightarrow>
           Some (of_nat (((d1 * 16 + d2) * 16 + d3) * 16 + d4)))
      else None)"
| "escapeAt s = None"

function decodeEscapes :: "jsstring \<Rightarrow> jsstring" where
  "decodeEscapes [] = []"
| "decodeEscapes (c # s) =
     (case escapeAt (c # s) of
        Some v \<Rightarrow> v # decodeEscapes (drop 5 s)
      | None \<Rightarrow> c # decodeEscapes s)"
  by pat_completeness auto
termination
  by (relation "measure length") auto

text \<open>An escape sequence written out in the string itself, at some position.\<close>

fun hasEscape :: "jsstring \<Rightarrow> bool" where
  "hasEscape [] = False"
| "hasEscape (c # s) = (escapeAt (c # s) \<noteq> None \<or> hasEscape s)"

text \<open>A character outside the Basic Multilingual Plane, at some position.\<close>

fun hasSurrogatePair :: "jsstring \<Rightarrow> bool" where
  "hasSurrogatePair [] = False"
| "hasSurrogatePair [c] = False"
| "hasSurrogatePair (c # d # s) =
     ((isHighSurrogate c \<and> isLowSurrogate d) \<or> hasSurrogatePair (d # s))"

section \<open>The escape sequence and the lines of the script\<close>

text \<open>
  The escape sequence of a code unit in the words of the specification: a backslash,
  the letter \<open>u\<close>, and the four hexadecimal digits of its value, zero-padded and in
  lowercase, most significant first. It is no part of the source; \<open>bashEscape\<close> is
  measured against it.
\<close>

definition escapeSequence :: "16 word \<Rightarrow> jsstring" where
  "escapeSequence c =
     [backslash, 0x75, digitChar (unat c div 4096), digitChar (unat c div 256 mod 16),
      digitChar (unat c div 16 mod 16), digitChar (unat c mod 16)]"

text \<open>
  Names for the parts that \<open>getInstallScript\<close> joins, in the order of the script: the
  shebang line and the export of the token, the four conditional exports, and the line
  that sets the default server name, given the escaped name. Each is the expression of
  the source, and \<open>getInstallScript_shape\<close> below shows that the script is their
  concatenation, followed by \<open>SCRIPT\<close>.
\<close>

definition tokenLines :: "jsstring \<Rightarrow> jsstring" where
  "tokenLines t =
     lit ''#!/bin/bash -eu'' @ [newline] @
     lit ''export DO_ACCESS_TOKEN='' @ [quote] @ t @ [quote, newline]"

definition imageLine :: "shadowboxSettings \<Rightarrow> jsstring" where
  "imageLine settings =
     (if imageId settings \<noteq> []
      then lit ''export SB_IMAGE='' @ [quote] @ imageId settings @ [quote, newline]
      else [])"

definition watchtowerLine :: "shadowboxSettings \<Rightarrow> jsstring" where
  "watchtowerLine settings =
     (case watchtowerRefreshSeconds settings of
        Some n \<Rightarrow>
          if n \<noteq> 0
          then lit ''export WATCHTOWER_REFRESH_SECONDS='' @ [quote] @ numberToString n
                 @ [quote, newline]
          else []
      | None \<Rightarrow> [])"

definition sentryLine :: "shadowboxSettings \<Rightarrow> jsstring" where
  "sentryLine settings =
     (case sentryApiUrl settings of
        Some url \<Rightarrow>
          if url \<noteq> []
          then lit ''export SENTRY_API_URL='' @ [quote] @ url @ [quote, newline]
          else []
      | None \<Rightarrow> [])"

definition metricsLine :: "shadowboxSettings \<Rightarrow> jsstring" where
  "metricsLine settings =
     (if metricsUrl settings \<noteq> []
      then lit ''export SB_METRICS_URL='' @ [quote] @ metricsUrl settings @ [quote, newline]
      else [])"

definition nameLine :: "jsstring \<Rightarrow> jsstring" where
  "nameLine escaped =
     lit ''export SB_DEFAULT_SERVER_NAME='' @ [dquote] @ lit ''$(printf '' @ [quote]
       @ escaped @ [quote] @ lit '')'' @ [dquote, newline]"

text \<open>A text that ends where a line ends.\<close>

definition endsLine :: "jsstring \<Rightarrow> bool" where
  "endsLine xs = (xs \<noteq> [] \<and> last xs = newline)"

section \<open>Example values\<close>

text \<open>Concrete collaborators and accounts, on which the theorems below are instantiated.\<close>

definition exampleSettings :: shadowboxSettings where
  "exampleSettings =
     \<lparr>imageId = lit ''quay.io/outline/shadowbox:stable'', metricsUrl = lit ''https://metrics.example'',
      sentryApiUrl = None, watchtowerRefreshSeconds = Some 3600\<rparr>"

text \<open>A bundle in which both optional fields are present and falsy.\<close>

definition zeroSettings :: shadowboxSettings where
  "zeroSettings =
     \<lparr>imageId = lit ''quay.io/outline/shadowbox:stable'', metricsUrl = lit ''https://metrics.example'',
      sentryApiUrl = Some [], watchtowerRefreshSeconds = Some 0\<rparr>"

definition exampleEnv :: "unit env" where
  "exampleEnv =
     \<lparr>getAccount = Inr \<lparr>status = lit ''pending'', email = None, email_verified = True\<rparr>,
      getRegionInfo =
        Inr [\<lparr>slug = lit ''nyc1'', available = True,
              sizes = [lit ''s-2vcpu-2gb'', lit ''s-1vcpu-1gb'']\<rparr>,
             \<lparr>slug = lit ''sfo1'', available = True, sizes = [lit ''s-2vcpu-2gb'']\<rparr>,
             \<lparr>slug = lit ''ams2'', available = False, sizes = [lit ''s-1vcpu-1gb'']\<rparr>],
      createDroplet = (\<lambda>name region key spec. Inr \<lparr>droplet_id = 42, droplet_more = ()\<rparr>),
      getDropletsByTag = (\<lambda>tag. Inr [\<lparr>droplet_id = 7, droplet_more = ()\<rparr>]),
      generateKeyPair = Inr \<lparr>keyPair_public = lit ''ssh-rsa AAAA'', keyPair_private = lit ''key''\<rparr>,
      SCRIPT = lit ''echo installing''\<rparr>"

definition failingEnv :: "unit env" where
  "failingEnv = exampleEnv\<lparr>createDroplet := (\<lambda>name region key spec. Inl (TransportError 503))\<rparr>"

definition exampleAccount :: "unit state" where
  "exampleAccount = DigitalOceanAccount (lit ''acct'') (lit ''dop_v1/ab-CD_09'') exampleSettings False 0 []"

definition quotedAccount :: "unit state" where
  "quotedAccount =
     DigitalOceanAccount (lit ''acct'') (lit ''dop'' @ [quote] @ lit ''v1'') exampleSettings False 0 []"

definition knownAccount :: "unit state" where
  "knownAccount =
     exampleAccount
       \<lparr>servers := [\<lparr>server_ref = 0, server_id = lit ''acct:42'',
                     server_session = digitalOcean exampleAccount,
                     server_droplet = \<lparr>droplet_id = 42, droplet_more = ()\<rparr>\<rparr>],
        nextRef := 1\<rparr>"

section \<open>Token sanitization\<close>

lemma tokenChar_not_ws: "tokenChar c \<Longrightarrow> \<not> isWhiteSpace c"
  unfolding tokenChar_def isWhiteSpace_def
  by (auto simp: word_le_nat_alt)

lemma dropWhile_all: "list_all P xs \<Longrightarrow> dropWhile P (xs @ ys) = dropWhile P ys"
  by (induction xs) auto

lemma dropWhile_keep: "xs \<noteq> [] \<Longrightarrow> \<not> P (hd xs) \<Longrightarrow> dropWhile P (xs @ ys) = xs @ ys"
  by (cases xs) auto

lemma trim_core:
  assumes pre: "list_all isWhiteSpace pre" and post: "list_all isWhiteSpace post"
    and ne: "core \<noteq> []"
    and first: "\<not> isWhiteSpace (hd core)" and final: "\<not> isWhiteSpace (last core)"
  shows "trim (pre @ core @ post) = core"
proof -
  have front: "dropWhile isWhiteSpace (pre @ core @ post) = core @ post"
    using pre ne first by (simp add: dropWhile_all dropWhile_keep)
  have "list_all isWhiteSpace (rev post)"
    using post by (simp add: list_all_iff)
  then have "dropWhile isWhiteSpace (rev post @ rev core) = dropWhile isWhiteSpace (rev core)"
    by (rule dropWhile_all)
  moreover have "dropWhile isWhiteSpace (rev core) = rev core"
    using ne final by (cases "rev core") (auto simp: last_rev [symmetric] simp del: last_rev)
  ultimately have "dropWhile isWhiteSpace (rev (core @ post)) = rev core"
    by simp
  with front show ?thesis
    by (simp add: trim_def)
qed

lemma trim_keeps: 
  assumes "c \<in> set s" "\<not> isWhiteSpace c" shows "c \<in> set (trim s)"
proof -
  have a: "c \<in> set (dropWhile isWhiteSpace s)" using assms
    by (induction s) auto
  have b: "\<And>t. c \<in> set t \<Longrightarrow> c \<in> set (dropWhile isWhiteSpace t)" using assms(2)
  proof -
    fix t show "c \<in> set t \<Longrightarrow> c \<in> set (dropWhile isWhiteSpace t)"
      using assms(2) by (induction t) auto
  qed
  show ?thesis unfolding trim_def using a b by simp
qed

lemma sanitize_accepts:
  assumes "list_all isWhiteSpace pre" "list_all isWhiteSpace post" "core \<noteq> []"
    "list_all tokenChar core"
  shows "sanitizeDigitalOceanToken (pre @ core @ post) = Inr core"
proof -
  from assms have "tokenChar (hd core)" "tokenChar (last core)"
    by (simp_all add: list_all_iff)
  then have "trim (pre @ core @ post) = core"
    using assms by (simp add: trim_core tokenChar_not_ws)
  then show ?thesis
    using assms by (simp add: sanitizeDigitalOceanToken_def pattern_test_def)
qed

lemma sanitize_rejects_char:
  assumes "c \<in> set input" "\<not> tokenChar c" "\<not> isWhiteSpace c"
  shows "sanitizeDigitalOceanToken input = Inl InvalidCredential"
proof -
  from assms have "c \<in> set (trim input)" by (simp add: trim_keeps)
  with assms have "\<not> list_all tokenChar (trim input)" by (auto simp: list_all_iff)
  then show ?thesis
    by (simp add: sanitizeDigitalOceanToken_def pattern_test_def)
qed

lemma sanitize_error: "sanitizeDigitalOceanToken token = Inl e \<Longrightarrow> e = InvalidCredential"
  by (auto simp: sanitizeDigitalOceanToken_def Let_def split: if_splits)

lemma sanitize_result:
  "sanitizeDigitalOceanToken token = Inr t \<Longrightarrow> t = trim token \<and> t \<noteq> [] \<and> list_all tokenChar t"
  by (auto simp: sanitizeDigitalOceanToken_def pattern_test_def Let_def split: if_splits)

text \<open>
  C1. A token made of a non-empty run of characters of \<open>[A-Za-z0-9_/-]\<close>, with any
  whitespace before and after it, is accepted, and the result is that run, unchanged.
  A token whose trimmed value is empty or holds a character outside the class is
  rejected with \<open>InvalidCredential\<close>; so is every token that holds, anywhere, a
  character that is neither of the class nor whitespace (a quote, a shell
  metacharacter). The empty run is the second case: the pattern asks for one character
  at least.
\<close>

theorem sanitize_token:
  "(list_all isWhiteSpace pre \<and> list_all isWhiteSpace post \<and> core \<noteq> [] \<and> list_all tokenChar core
      \<longrightarrow> sanitizeDigitalOceanToken (pre @ core @ post) = Inr core)
   \<and> (trim input = [] \<or> \<not> list_all tokenChar (trim input)
      \<longrightarrow> sanitizeDigitalOceanToken input = Inl InvalidCredential)
   \<and> (c \<in> set input \<and> \<not> tokenChar c \<and> \<not> isWhiteSpace c
      \<longrightarrow> sanitizeDigitalOceanToken input = Inl InvalidCredential)"
proof (intro conjI impI)
  assume "list_all isWhiteSpace pre \<and> list_all isWhiteSpace post \<and> core \<noteq> []
    \<and> list_all tokenChar core"
  then show "sanitizeDigitalOceanToken (pre @ core @ post) = Inr core"
    by (simp add: sanitize_accepts)
next
  assume "trim input = [] \<or> \<not> list_all tokenChar (trim input)"
  then show "sanitizeDigitalOceanToken input = Inl InvalidCredential"
    by (auto simp: sanitizeDigitalOceanToken_def pattern_test_def)
next
  assume "c \<in> set input \<and> \<not> tokenChar c \<and> \<not> isWhiteSpace c"
  then show "sanitizeDigitalOceanToken input = Inl InvalidCredential"
    using sanitize_rejects_char by blast
qed

theorem sanitize_token_witness:
  "sanitizeDigitalOceanToken (lit '' dop_v1/ab-CD_09  '') = Inr (lit ''dop_v1/ab-CD_09'')
   \<and> sanitizeDigitalOceanToken (lit ''dop v1'') = Inl InvalidCredential
   \<and> sanitizeDigitalOceanToken (lit ''dop'' @ [quote] @ lit ''v1'') = Inl InvalidCredential"
proof -
  have accepted: "list_all isWhiteSpace (lit '' '') \<and> list_all isWhiteSpace (lit ''  '')
      \<and> lit ''dop_v1/ab-CD_09'' \<noteq> [] \<and> list_all tokenChar (lit ''dop_v1/ab-CD_09'')"
    by (simp add: lit_def isWhiteSpace_def tokenChar_def)
  have spaced: "trim (lit ''dop v1'') = [] \<or> \<not> list_all tokenChar (trim (lit ''dop v1''))"
    by (simp add: lit_def trim_def isWhiteSpace_def tokenChar_def)
  have quoted: "quote \<in> set (lit ''dop'' @ [quote] @ lit ''v1'') \<and> \<not> tokenChar quote
      \<and> \<not> isWhiteSpace quote"
    by (simp add: quote_def isWhiteSpace_def tokenChar_def)
  have whole: "lit '' dop_v1/ab-CD_09  '' = lit '' '' @ lit ''dop_v1/ab-CD_09'' @ lit ''  ''"
    by (simp add: lit_def)
  from accepted
    sanitize_token [of "lit '' ''" "lit ''  ''" "lit ''dop_v1/ab-CD_09''" "lit ''dop v1''" quote]
  have first: "sanitizeDigitalOceanToken (lit '' dop_v1/ab-CD_09  '') = Inr (lit ''dop_v1/ab-CD_09'')"
    unfolding whole by blast
  from spaced sanitize_token [of "[]" "[]" "[]" "lit ''dop v1''" quote]
  have second: "sanitizeDigitalOceanToken (lit ''dop v1'') = Inl InvalidCredential"
    by blast
  from quoted sanitize_token [of "[]" "[]" "[]" "lit ''dop'' @ [quote] @ lit ''v1''" quote]
  have third: "sanitizeDigitalOceanToken (lit ''dop'' @ [quote] @ lit ''v1'') = Inl InvalidCredential"
    by blast
  from first second third show ?thesis by blast
qed

section \<open>Regions and account status\<close>

lemma indexOf_ge: "- 1 \<le> indexOf xs x"
  by (induction xs) (auto simp: Let_def)

lemma indexOf_found: "indexOf xs x \<noteq> - 1 \<longleftrightarrow> x \<in> set xs"
proof (induction xs)
  case Nil
  then show ?case by simp
next
  case (Cons y ys)
  have "indexOf ys x + 1 \<noteq> - 1"
    using indexOf_ge [of ys x] by arith
  with Cons show ?case by (auto simp: Let_def)
qed

text \<open>
  C6. When the provider reports the list \<open>regions\<close>, \<open>listLocations\<close> returns a list
  of the same length whose entry at each index carries the slug of the region at that
  index and is available exactly when that region is reported available and
  \<open>MACHINE_SIZE\<close> is among its sizes.
\<close>

theorem listLocations_available:
  assumes "getRegionInfo env = Inr regions"
  shows "\<exists>out. fst (listLocations env st) = Inr out \<and> length out = length regions \<and>
           (\<forall>i < length regions.
              cloudLocation (out ! i) = Region (slug (regions ! i)) \<and>
              option_available (out ! i) =
                (available (regions ! i) \<and> MACHINE_SIZE \<in> set (sizes (regions ! i))))"
  using assms by (simp add: listLocations_def indexOf_found)

theorem listLocations_available_witness:
  "\<exists>out. fst (listLocations exampleEnv exampleAccount) = Inr out \<and> length out = 3 \<and>
     cloudLocation (out ! 0) = Region (lit ''nyc1'') \<and> option_available (out ! 0) \<and>
     cloudLocation (out ! 1) = Region (lit ''sfo1'') \<and> \<not> option_available (out ! 1) \<and>
     cloudLocation (out ! 2) = Region (lit ''ams2'') \<and> \<not> option_available (out ! 2)"
proof -
  let ?regions = "[\<lparr>slug = lit ''nyc1'', available = True,
                     sizes = [lit ''s-2vcpu-2gb'', lit ''s-1vcpu-1gb'']\<rparr>,
                   \<lparr>slug = lit ''sfo1'', available = True, sizes = [lit ''s-2vcpu-2gb'']\<rparr>,
                   \<lparr>slug = lit ''ams2'', available = False, sizes = [lit ''s-1vcpu-1gb'']\<rparr>]"
  have reported: "getRegionInfo exampleEnv = Inr ?regions"
    by (simp add: exampleEnv_def)
  from listLocations_available [OF reported, of exampleAccount] obtain out where
    out: "fst (listLocations exampleEnv exampleAccount) = Inr out" "length out = 3"
    and each: "\<forall>i < 3. cloudLocation (out ! i) = Region (slug (?regions ! i)) \<and>
                 option_available (out ! i) =
                   (available (?regions ! i) \<and> MACHINE_SIZE \<in> set (sizes (?regions ! i)))"
    by auto
  from each have "cloudLocation (out ! 0) = Region (lit ''nyc1'')"
    "cloudLocation (out ! 1) = Region (lit ''sfo1'')"
    "cloudLocation (out ! 2) = Region (lit ''ams2'')"
    "option_available (out ! 0)" "\<not> option_available (out ! 1)"
    "\<not> option_available (out ! 2)"
    by (simp_all add: MACHINE_SIZE_def lit_def)
  with out show ?thesis by blast
qed

text \<open>
  C7. When the provider returns the account record, \<open>getStatus\<close> yields \<open>ACTIVE\<close> if
  its status is \<open>active\<close>, whatever \<open>email_verified\<close> says; otherwise
  \<open>EMAIL_UNVERIFIED\<close> if \<open>email_verified\<close> is false; otherwise
  \<open>MISSING_BILLING_INFORMATION\<close>.
\<close>

theorem getStatus_resolution:
  assumes "getAccount env = Inr account"
  shows "(status account = lit ''active'' \<longrightarrow> fst (getStatus env st) = Inr ACTIVE) \<and>
         (status account \<noteq> lit ''active'' \<and> \<not> email_verified account \<longrightarrow>
            fst (getStatus env st) = Inr EMAIL_UNVERIFIED) \<and>
         (status account \<noteq> lit ''active'' \<and> email_verified account \<longrightarrow>
            fst (getStatus env st) = Inr MISSING_BILLING_INFORMATION)"
  using assms by (simp add: getStatus_def)

theorem getStatus_resolution_witness:
  "fst (getStatus (exampleEnv\<lparr>getAccount :=
          Inr \<lparr>status = lit ''active'', email = None, email_verified = False\<rparr>\<rparr>) exampleAccount)
     = Inr ACTIVE \<and>
   fst (getStatus (exampleEnv\<lparr>getAccount :=
          Inr \<lparr>status = lit ''pending'', email = None, email_verified = False\<rparr>\<rparr>) exampleAccount)
     = Inr EMAIL_UNVERIFIED \<and>
   fst (getStatus exampleEnv exampleAccount) = Inr MISSING_BILLING_INFORMATION"
proof -
  let ?active = "\<lparr>status = lit ''active'', email = None, email_verified = False\<rparr>"
  let ?unverified = "\<lparr>status = lit ''pending'', email = None, email_verified = False\<rparr>"
  let ?unbilled = "\<lparr>status = lit ''pending'', email = None, email_verified = True\<rparr>"
  have differ: "lit ''pending'' \<noteq> lit ''active''"
    by (simp add: lit_def)
  have "getAccount (exampleEnv\<lparr>getAccount := Inr ?active\<rparr>) = Inr ?active"
    by simp
  from getStatus_resolution [OF this, of exampleAccount]
  have first: "fst (getStatus (exampleEnv\<lparr>getAccount := Inr ?active\<rparr>) exampleAccount) = Inr ACTIVE"
    by simp
  have "getAccount (exampleEnv\<lparr>getAccount := Inr ?unverified\<rparr>) = Inr ?unverified"
    by simp
  from getStatus_resolution [OF this, of exampleAccount] differ
  have second: "fst (getStatus (exampleEnv\<lparr>getAccount := Inr ?unverified\<rparr>) exampleAccount)
      = Inr EMAIL_UNVERIFIED"
    by simp
  have "getAccount exampleEnv = Inr ?unbilled"
    by (simp add: exampleEnv_def)
  from getStatus_resolution [OF this, of exampleAccount] differ
  have third: "fst (getStatus exampleEnv exampleAccount) = Inr MISSING_BILLING_INFORMATION"
    by simp
  from first second third show ?thesis by blast
qed

section \<open>Creating a server\<close>

lemma getInstallScript_invalid:
  "sanitizeDigitalOceanToken token = Inl e \<Longrightarrow> getInstallScript payload token name settings = Inl e"
  by (simp add: getInstallScript_def)

lemma getInstallScript_error:
  "getInstallScript payload token name settings = Inl e \<Longrightarrow> sanitizeDigitalOceanToken token = Inl e"
  by (auto simp: getInstallScript_def split: sum.splits)

lemma quote_rejected: "quote \<in> set token \<Longrightarrow> sanitizeDigitalOceanToken token = Inl InvalidCredential"
  by (rule sanitize_rejects_char [of quote]) (simp_all add: quote_def tokenChar_def isWhiteSpace_def)

text \<open>
  C3. When the token of the account's session fails sanitization, as every token that
  holds a single quote does, \<open>createServer\<close> fails with \<open>InvalidCredential\<close>, whatever
  the region and the name. It has then written its two console timers and started the
  key-pair generator, and nothing else: the calls to the provider session in the trace
  are those that were there before, and the registry is as it was.
\<close>

theorem createServer_invalid_token:
  assumes "sanitizeDigitalOceanToken (session_accessToken (digitalOcean st)) = Inl e
           \<or> quote \<in> set (session_accessToken (digitalOcean st))"
  shows "createServer env region name st =
           (Inl InvalidCredential,
            emit [ConsoleTime (lit ''activeServer''), ConsoleTime (lit ''servingServer''),
                  GenerateKeyPair] st)
         \<and> filter isProviderCall (trace (snd (createServer env region name st)))
             = filter isProviderCall (trace st)
         \<and> servers (snd (createServer env region name st)) = servers st"
proof -
  from assms have "sanitizeDigitalOceanToken (session_accessToken (digitalOcean st))
      = Inl InvalidCredential"
    by (auto dest: sanitize_error quote_rejected)
  then show ?thesis
    by (simp add: createServer_def emit_def getInstallScript_invalid)
qed

theorem createServer_invalid_token_witness:
  "quote \<in> set (session_accessToken (digitalOcean quotedAccount)) \<and>
   fst (createServer exampleEnv (Region (lit ''nyc1'')) (lit ''my server'') quotedAccount)
     = Inl InvalidCredential \<and>
   filter isProviderCall
     (trace (snd (createServer exampleEnv (Region (lit ''nyc1'')) (lit ''my server'') quotedAccount)))
     = []"
proof -
  have quoted: "quote \<in> set (session_accessToken (digitalOcean quotedAccount))"
    by (simp add: quotedAccount_def DigitalOceanAccount_def RestApiSession_def)
  then have "sanitizeDigitalOceanToken (session_accessToken (digitalOcean quotedAccount)) = Inl undefined
      \<or> quote \<in> set (session_accessToken (digitalOcean quotedAccount))"
    by simp
  note run = createServer_invalid_token [OF this, of exampleEnv "Region (lit ''nyc1'')" "lit ''my server''"]
  from run have "fst (createServer exampleEnv (Region (lit ''nyc1'')) (lit ''my server'') quotedAccount)
      = Inl InvalidCredential"
    by (elim conjE) simp
  moreover from run have "filter isProviderCall
      (trace (snd (createServer exampleEnv (Region (lit ''nyc1'')) (lit ''my server'') quotedAccount)))
      = filter isProviderCall (trace quotedAccount)"
    by (elim conjE)
  moreover have "trace quotedAccount = []"
    by (simp add: quotedAccount_def DigitalOceanAccount_def)
  ultimately show ?thesis
    using quoted by simp
qed

text \<open>
  C4. When \<open>createServer\<close> succeeds, the install script was built, the key pair was
  generated, and the provider answered the create request (name, region id, public key,
  and the spec with the install command, the machine size, the base image and the tag)
  with a droplet. The server returned is the record made from that droplet: a new
  object, with the id of the account, a colon and the droplet id in decimal as its
  key. The registry afterwards is the registry before with that one record at its end.
\<close>

theorem createServer_success_appends:
  assumes "createServer env region name st = (Inr server, st')"
  shows "\<exists>command keyPair droplet.
           getInstallScript (SCRIPT env) (session_accessToken (digitalOcean st)) name
             (shadowboxSettings st) = Inr command \<and>
           generateKeyPair env = Inr keyPair \<and>
           createDroplet env name (region_id region) (keyPair_public keyPair)
             \<lparr>installCommand = command, spec_size = MACHINE_SIZE,
              spec_image = lit ''docker-18-04'', spec_tags = [SHADOWBOX_TAG]\<rparr> = Inr droplet \<and>
           server = \<lparr>server_ref = nextRef st,
                     server_id = account_id st @ lit '':'' @ toStringRadix 10 (droplet_id droplet),
                     server_session = digitalOcean st,
                     server_droplet = droplet\<rparr> \<and>
           servers st' = servers st @ [server] \<and>
           length (servers st') = Suc (length (servers st))"
  using assms
  by (auto simp: createServer_def createDigitalOceanServer_def emit_def Let_def
           split: sum.splits if_splits)

theorem createServer_success_appends_witness:
  "\<exists>server st'.
     createServer exampleEnv (Region (lit ''nyc1'')) (lit ''my server'') knownAccount = (Inr server, st') \<and>
     server_id server = lit ''acct:42'' \<and>
     servers st' = servers knownAccount @ [server] \<and>
     length (servers st') = 2"
proof -
  obtain result st' where
    run: "createServer exampleEnv (Region (lit ''nyc1'')) (lit ''my server'') knownAccount = (result, st')"
    by (cases "createServer exampleEnv (Region (lit ''nyc1'')) (lit ''my server'') knownAccount")
  have "sanitizeDigitalOceanToken (lit ''dop_v1/ab-CD_09'') = Inr (lit ''dop_v1/ab-CD_09'')"
    using sanitize_accepts [of "[]" "[]" "lit ''dop_v1/ab-CD_09''"]
    by (simp add: lit_def tokenChar_def)
  then have "\<exists>server. result = Inr server"
    using run
    by (auto simp: createServer_def getInstallScript_def knownAccount_def exampleAccount_def
        DigitalOceanAccount_def RestApiSession_def exampleEnv_def emit_def
        createDigitalOceanServer_def Let_def)
  then obtain server where server: "result = Inr server" ..
  have decimal: "toStringRadix 10 42 = lit ''42''"
    by code_simp
  from createServer_success_appends [OF run [unfolded server]]
  have "server_id server = account_id knownAccount @ lit '':'' @ toStringRadix 10 42"
    and "servers st' = servers knownAccount @ [server]"
    and "length (servers st') = Suc (length (servers knownAccount))"
    by (auto simp: exampleEnv_def)
  then have "server_id server = lit ''acct:42''" "servers st' = servers knownAccount @ [server]"
    "length (servers st') = 2"
    by (simp_all add: decimal knownAccount_def exampleAccount_def DigitalOceanAccount_def lit_def)
  with run server show ?thesis by blast
qed

text \<open>
  C9. When \<open>createServer\<close> fails, the registry afterwards is the registry before, and
  the error it fails with is the one that the failing step produced: the error of the
  sanitization, or the rejection of the key-pair generator, or the rejection of the
  provider's create request.
\<close>

theorem createServer_failure_keeps_registry:
  assumes "createServer env region name st = (Inl e, st')"
  shows "servers st' = servers st \<and>
         (sanitizeDigitalOceanToken (session_accessToken (digitalOcean st)) = Inl e \<or>
          generateKeyPair env = Inl e \<or>
          (\<exists>command keyPair.
             getInstallScript (SCRIPT env) (session_accessToken (digitalOcean st)) name
               (shadowboxSettings st) = Inr command \<and>
             generateKeyPair env = Inr keyPair \<and>
             createDroplet env name (region_id region) (keyPair_public keyPair)
               \<lparr>installCommand = command, spec_size = MACHINE_SIZE,
                spec_image = lit ''docker-18-04'', spec_tags = [SHADOWBOX_TAG]\<rparr> = Inl e))"
  using assms
  by (auto simp: createServer_def createDigitalOceanServer_def emit_def Let_def
           dest: getInstallScript_error
           split: sum.splits if_splits)

theorem createServer_failure_keeps_registry_witness:
  "\<exists>st'.
     createServer failingEnv (Region (lit ''nyc1'')) (lit ''my server'') knownAccount
       = (Inl (TransportError 503), st') \<and>
     servers st' = servers knownAccount"
proof -
  obtain result st' where
    run: "createServer failingEnv (Region (lit ''nyc1'')) (lit ''my server'') knownAccount = (result, st')"
    by (cases "createServer failingEnv (Region (lit ''nyc1'')) (lit ''my server'') knownAccount")
  have "sanitizeDigitalOceanToken (lit ''dop_v1/ab-CD_09'') = Inr (lit ''dop_v1/ab-CD_09'')"
    using sanitize_accepts [of "[]" "[]" "lit ''dop_v1/ab-CD_09''"]
    by (simp add: lit_def tokenChar_def)
  then have failed: "result = Inl (TransportError 503)"
    using run
    by (auto simp: createServer_def getInstallScript_def knownAccount_def exampleAccount_def
        DigitalOceanAccount_def RestApiSession_def failingEnv_def exampleEnv_def emit_def Let_def)
  from createServer_failure_keeps_registry [OF run [unfolded failed]]
  have "servers st' = servers knownAccount"
    by simp
  with run failed show ?thesis by blast
qed

section \<open>Listing the servers\<close>

lemma wrapDroplets_props:
  "wrapDroplets ds st = (new, st') \<Longrightarrow>
     st' = st\<lparr>servers := servers st @ new, nextRef := nextRef st + length ds\<rparr> \<and>
     map server_droplet new = ds \<and>
     map server_ref new = [nextRef st ..< nextRef st + length ds] \<and>
     (\<forall>s \<in> set new.
        server_id s = account_id st @ lit '':'' @ toStringRadix 10 (droplet_id (server_droplet s)) \<and>
        server_session s = digitalOcean st)"
proof (induction ds arbitrary: st new st')
  case Nil
  then show ?case by simp
next
  case (Cons d ds)
  obtain server st1 where first: "createDigitalOceanServer (digitalOcean st) d st = (server, st1)"
    by (cases "createDigitalOceanServer (digitalOcean st) d st")
  obtain rest st2 where others: "wrapDroplets ds st1 = (rest, st2)"
    by (cases "wrapDroplets ds st1")
  from Cons.prems first others have new: "new = server # rest" and st': "st' = st2"
    by simp_all
  from first have server: "server = \<lparr>server_ref = nextRef st,
        server_id = account_id st @ lit '':'' @ toStringRadix 10 (droplet_id d),
        server_session = digitalOcean st, server_droplet = d\<rparr>"
    and st1: "st1 = st\<lparr>servers := servers st @ [server], nextRef := Suc (nextRef st)\<rparr>"
    by (auto simp: createDigitalOceanServer_def Let_def)
  note ih = Cons.IH [OF others]
  have len: "nextRef st + length (d # ds) = Suc (nextRef st) + length ds"
    by simp
  have "[nextRef st ..< Suc (nextRef st) + length ds]
          = nextRef st # [Suc (nextRef st) ..< Suc (nextRef st) + length ds]"
    by (rule upt_conv_Cons) simp
  then have refs: "map server_ref new = [nextRef st ..< nextRef st + length (d # ds)]"
    unfolding len using ih by (simp add: new st1 server)
  have state: "st' = st\<lparr>servers := servers st @ new,
                          nextRef := nextRef st + length (d # ds)\<rparr>"
    using ih by (simp add: new st' st1)
  have "map server_droplet new = d # ds"
    using ih by (simp add: new server)
  moreover have "\<forall>s \<in> set new.
        server_id s = account_id st @ lit '':'' @ toStringRadix 10 (droplet_id (server_droplet s)) \<and>
        server_session s = digitalOcean st"
    using ih by (simp add: new st1 server)
  ultimately show ?case
    using refs state by blast
qed

text \<open>
  C5. When the provider answers the query for the droplets tagged \<open>SHADOWBOX_TAG\<close> with
  the list \<open>droplets\<close>, \<open>listServers\<close> with \<open>fetchFromHost\<close> set succeeds, and the list
  it returns is the registry afterwards. That list has one record for each droplet of
  the answer, in the order of the answer, each keyed by the account id, a colon and the
  droplet id in decimal; it depends on the registry before in nothing. Its records are
  objects allocated by this call: when every record of the registry before was
  allocated earlier, as is the case for every registry this code has built, none of
  them is in the registry afterwards.
\<close>

theorem listServers_refresh_replaces:
  assumes "getDropletsByTag env SHADOWBOX_TAG = Inr droplets"
  shows "\<exists>new st'.
           listServers env True st = (Inr new, st') \<and>
           servers st' = new \<and>
           map server_droplet new = droplets \<and>
           (\<forall>s \<in> set new.
              server_id s = account_id st @ lit '':'' @ toStringRadix 10 (droplet_id (server_droplet s)) \<and>
              server_session s = digitalOcean st) \<and>
           map server_ref new = [nextRef st ..< nextRef st + length droplets] \<and>
           ((\<forall>s \<in> set (servers st). server_ref s < nextRef st) \<longrightarrow>
              set new \<inter> set (servers st) = {}) \<and>
           trace st' = trace st @ [GetDropletsByTag SHADOWBOX_TAG]"
proof -
  let ?st1 = "(emit [GetDropletsByTag SHADOWBOX_TAG] st)\<lparr>servers := []\<rparr>"
  obtain new st' where w: "wrapDroplets droplets ?st1 = (new, st')"
    by (cases "wrapDroplets droplets ?st1")
  note p = wrapDroplets_props [OF w]
  have call: "listServers env True st = (Inr new, st')"
    using assms w by (simp add: listServers_def)
  have refs: "map server_ref new = [nextRef st ..< nextRef st + length droplets]"
    using p by (simp add: emit_def)
  have fresh: "set new \<inter> set (servers st) = {}"
    if inv: "\<forall>s \<in> set (servers st). server_ref s < nextRef st"
  proof -
    have "nextRef st \<le> server_ref s" if "s \<in> set new" for s
    proof -
      from that have "server_ref s \<in> set (map server_ref new)" by simp
      then show ?thesis unfolding refs by simp
    qed
    with inv show ?thesis by fastforce
  qed
  from p have "servers st' = new" "map server_droplet new = droplets"
    "trace st' = trace st @ [GetDropletsByTag SHADOWBOX_TAG]"
    "\<forall>s \<in> set new.
        server_id s = account_id st @ lit '':'' @ toStringRadix 10 (droplet_id (server_droplet s)) \<and>
        server_session s = digitalOcean st"
    by (simp_all add: emit_def)
  with call refs fresh show ?thesis by blast
qed

theorem listServers_refresh_replaces_witness:
  "\<exists>new st'.
     listServers exampleEnv True knownAccount = (Inr new, st') \<and>
     servers st' = new \<and>
     map server_droplet new = [\<lparr>droplet_id = 7, droplet_more = ()\<rparr>] \<and>
     map server_ref new = [1] \<and>
     set new \<inter> set (servers knownAccount) = {}"
proof -
  have answer: "getDropletsByTag exampleEnv SHADOWBOX_TAG = Inr [\<lparr>droplet_id = 7, droplet_more = ()\<rparr>]"
    by (simp add: exampleEnv_def)
  have older: "\<forall>s \<in> set (servers knownAccount). server_ref s < nextRef knownAccount"
    by (simp add: knownAccount_def)
  have "nextRef knownAccount = 1"
    by (simp add: knownAccount_def)
  with listServers_refresh_replaces [OF answer, of knownAccount] older show ?thesis
    by auto
qed

section \<open>Escaping the server name\<close>

lemma digit_cases:
  assumes "d < 16"
  obtains "d = 0" | "d = 1" | "d = 2" | "d = 3" | "d = 4" | "d = 5" | "d = 6" | "d = 7"
    | "d = 8" | "d = 9" | "d = 10" | "d = 11" | "d = 12" | "d = 13" | "d = 14" | "d = (15::nat)"
proof -
  from assms have "d = 0 \<or> d = 1 \<or> d = 2 \<or> d = 3 \<or> d = 4 \<or> d = 5 \<or> d = 6 \<or> d = 7
      \<or> d = 8 \<or> d = 9 \<or> d = 10 \<or> d = 11 \<or> d = 12 \<or> d = 13 \<or> d = 14 \<or> d = 15"
    by arith
  then show thesis
    using that by blast
qed

lemma digitChar_ascii: "d < 16 \<Longrightarrow> isAscii (digitChar d)"
  by (erule digit_cases) (simp_all add: digitChar_def isAscii_def)

lemma hexValue_digitChar: "d < 16 \<Longrightarrow> hexValue (digitChar d) = Some d"
  by (erule digit_cases) (simp_all add: digitChar_def hexValue_def)

lemma toStringRadix16_ascii: "list_all isAscii (toStringRadix 16 n)"
proof (induction n rule: less_induct)
  case (less n)
  show ?case
  proof (cases "n < 16")
    case True
    then show ?thesis by (simp add: toStringRadix.simps [of 16 n] digitChar_ascii)
  next
    case False
    then have "n div 16 < n" by simp
    then have "list_all isAscii (toStringRadix 16 (n div 16))" by (rule less.IH)
    with False show ?thesis
      by (simp add: toStringRadix.simps [of 16 n] digitChar_ascii)
  qed
qed

lemma lit_NaN_ascii: "list_all isAscii (lit ''NaN'')"
  by (simp add: lit_def isAscii_def)

lemma padStart_ascii: "isAscii c \<Longrightarrow> list_all isAscii s \<Longrightarrow> list_all isAscii (padStart n c s)"
  by (auto simp: padStart_def list_all_iff)

lemma replacer_ascii: "list_all isAscii (replacer m)"
proof -
  have "isAscii backslash" "isAscii 0x75" "isAscii 0x30"
    by (simp_all add: isAscii_def backslash_def)
  then show ?thesis
    by (cases m) (simp_all add: padStart_ascii lit_NaN_ascii toStringRadix16_ascii)
qed

lemma bashEscape_all_ascii: "list_all isAscii (bashEscape s)"
  by (induction s rule: bashEscape.induct) (simp_all add: replacer_ascii del: replacer.simps)

lemma padStart_4:
  "padStart 4 z [a] = [z, z, z, a]"
  "padStart 4 z [a, b] = [z, z, a, b]"
  "padStart 4 z [a, b, c] = [z, a, b, c]"
  "padStart 4 z [a, b, c, d] = [a, b, c, d]"
  by (simp_all add: padStart_def numeral_eq_Suc)

lemma toStringRadix16_small: "n < 16 \<Longrightarrow> toStringRadix 16 n = [digitChar n]"
  by (simp add: toStringRadix.simps [of 16 n])

lemma toStringRadix16_step:
  "16 \<le> n \<Longrightarrow> toStringRadix 16 n = toStringRadix 16 (n div 16) @ [digitChar (n mod 16)]"
  by (simp add: toStringRadix.simps [of 16 n])

lemma four_digits:
  assumes "n < 65536"
  shows "padStart 4 0x30 (toStringRadix 16 n) =
           [digitChar (n div 4096), digitChar (n div 256 mod 16), digitChar (n div 16 mod 16),
            digitChar (n mod 16)]"
proof -
  have zero: "digitChar 0 = 0x30" by (simp add: digitChar_def)
  have d256: "n div 256 = n div 16 div 16" and d4096: "n div 4096 = n div 16 div 16 div 16"
    by (simp_all add: div_mult2_eq [symmetric])
  consider "n < 16" | "16 \<le> n" "n < 256" | "256 \<le> n" "n < 4096" | "4096 \<le> n"
    by linarith
  then show ?thesis
  proof cases
    case 1
    then have "toStringRadix 16 n = [digitChar n]"
      by (rule toStringRadix16_small)
    moreover from 1 have "n div 4096 = 0" "n div 256 = 0" "n div 16 = 0" "n mod 16 = n"
      by simp_all
    ultimately show ?thesis
      by (simp only: padStart_4 zero mod_0)
  next
    case 2
    then have "n div 16 < 16" by simp
    then have "toStringRadix 16 n = [digitChar (n div 16), digitChar (n mod 16)]"
      using 2 by (simp only: toStringRadix16_step toStringRadix16_small append.simps)
    moreover from 2 have "n div 4096 = 0" "n div 256 = 0" "n div 16 mod 16 = n div 16"
      by simp_all
    ultimately show ?thesis
      by (simp only: padStart_4 zero mod_0)
  next
    case 3
    then have a: "16 \<le> n" "16 \<le> n div 16" "n div 16 div 16 < 16" by simp_all
    have "toStringRadix 16 n =
            [digitChar (n div 16 div 16), digitChar (n div 16 mod 16), digitChar (n mod 16)]"
      using a by (simp only: toStringRadix16_step toStringRadix16_small append.simps)
    moreover from 3 have "n div 4096 = 0" "n div 256 mod 16 = n div 16 div 16"
      by (simp_all add: d256)
    ultimately show ?thesis
      by (simp only: padStart_4 zero)
  next
    case 4
    with assms have a: "16 \<le> n" "16 \<le> n div 16" "16 \<le> n div 16 div 16"
      "n div 16 div 16 div 16 < 16" by simp_all
    have "toStringRadix 16 n =
            [digitChar (n div 16 div 16 div 16), digitChar (n div 16 div 16 mod 16),
             digitChar (n div 16 mod 16), digitChar (n mod 16)]"
      using a by (simp only: toStringRadix16_step toStringRadix16_small append.simps)
    then show ?thesis
      by (simp only: padStart_4 d256 d4096)
  qed
qed

lemma four_digits_value:
  "((n div 4096 * 16 + n div 256 mod 16) * 16 + n div 16 mod 16) * 16 + n mod 16 = (n::nat)"
proof -
  have d256: "n div 256 = n div 16 div 16" and d4096: "n div 4096 = n div 16 div 16 div 16"
    by (simp_all add: div_mult2_eq [symmetric])
  show ?thesis
    by (simp only: d256 d4096 div_mult_mod_eq)
qed

lemma replacer_single:
  "replacer (c # m) =
     [backslash, 0x75, digitChar (unat c div 4096), digitChar (unat c div 256 mod 16),
      digitChar (unat c div 16 mod 16), digitChar (unat c mod 16)]"
proof -
  have "unat c < 2 ^ LENGTH(16)" by (rule unsigned_less)
  then have "unat c < 65536" by simp
  then show ?thesis by (simp add: four_digits)
qed

lemma escapeAt_replacer: "escapeAt (replacer (c # m) @ rest) = Some c"
proof -
  have "unat c < 2 ^ LENGTH(16)" by (rule unsigned_less)
  then have "unat c < 65536" by simp
  then have digits: "hexValue (digitChar (unat c div 4096)) = Some (unat c div 4096)"
    "hexValue (digitChar (unat c div 256 mod 16)) = Some (unat c div 256 mod 16)"
    "hexValue (digitChar (unat c div 16 mod 16)) = Some (unat c div 16 mod 16)"
    "hexValue (digitChar (unat c mod 16)) = Some (unat c mod 16)"
    by (simp_all add: hexValue_digitChar)
  have "(of_nat (unat c) :: 16 word) = c" by simp
  then have val: "(of_nat (((unat c div 4096 * 16 + unat c div 256 mod 16) * 16
                     + unat c div 16 mod 16) * 16 + unat c mod 16) :: 16 word) = c"
    by (simp only: four_digits_value)
  show ?thesis
    by (simp only: replacer_single append.simps escapeAt.simps digits option.case val
        simp_thms if_True)
qed

lemma decode_replacer: "decodeEscapes (replacer (c # m) @ rest) = c # decodeEscapes rest"
proof -
  obtain b t where shape: "replacer (c # m) = b # t" "length t = 5"
    by (simp only: replacer_single) simp
  have "escapeAt (b # t @ rest) = Some c"
    using escapeAt_replacer [of c m rest] by (simp only: shape append.simps)
  then show ?thesis
    by (simp add: shape del: replacer.simps)
qed

lemma replacer_head: "\<exists>t. replacer m = backslash # t"
  by (cases m) simp_all

lemma bashEscape_head:
  "bashEscape s = z # zs \<Longrightarrow> z \<noteq> backslash \<Longrightarrow> \<exists>s'. s = z # s' \<and> zs = bashEscape s'"
proof (induction s rule: bashEscape.induct)
  case 1
  then show ?case by simp
next
  case (2 c)
  then show ?case
    using replacer_head [of "[c]"] by (auto simp del: replacer.simps split: if_splits)
next
  case (3 c d s)
  then show ?case
    using replacer_head [of "[c]"] replacer_head [of "[c, d]"]
    by (auto simp del: replacer.simps split: if_splits)
qed

lemma hexValue_not_backslash: "hexValue h = Some d \<Longrightarrow> h \<noteq> backslash"
  by (auto simp: hexValue_def backslash_def split: if_splits)

lemma escapeAt_shape:
  "escapeAt s = Some v \<Longrightarrow>
     \<exists>h1 h2 h3 h4 rest. s = backslash # 0x75 # h1 # h2 # h3 # h4 # rest \<and>
       hexValue h1 \<noteq> None \<and> hexValue h2 \<noteq> None \<and> hexValue h3 \<noteq> None \<and> hexValue h4 \<noteq> None"
  by (induction s rule: escapeAt.induct) (auto split: if_splits option.splits)

lemma escapeAt_bashEscape:
  assumes "escapeAt (c # bashEscape s) = Some v"
  shows "escapeAt (c # s) = Some v"
proof -
  from escapeAt_shape [OF assms] obtain h1 h2 h3 h4 rest where
    c: "c = backslash" and e: "bashEscape s = 0x75 # h1 # h2 # h3 # h4 # rest"
    and hex: "hexValue h1 \<noteq> None" "hexValue h2 \<noteq> None" "hexValue h3 \<noteq> None"
      "hexValue h4 \<noteq> None"
    by auto
  from hex have h: "h1 \<noteq> backslash" "h2 \<noteq> backslash" "h3 \<noteq> backslash" "h4 \<noteq> backslash"
    by (auto dest: hexValue_not_backslash)
  have u: "(0x75 :: 16 word) \<noteq> backslash" by (simp add: backslash_def)
  from bashEscape_head [OF e u] obtain s1 where
    s1: "s = 0x75 # s1" "h1 # h2 # h3 # h4 # rest = bashEscape s1" by blast
  from bashEscape_head [OF s1(2) [symmetric] h(1)] obtain s2 where
    s2: "s1 = h1 # s2" "h2 # h3 # h4 # rest = bashEscape s2" by blast
  from bashEscape_head [OF s2(2) [symmetric] h(2)] obtain s3 where
    s3: "s2 = h2 # s3" "h3 # h4 # rest = bashEscape s3" by blast
  from bashEscape_head [OF s3(2) [symmetric] h(3)] obtain s4 where
    s4: "s3 = h3 # s4" "h4 # rest = bashEscape s4" by blast
  from bashEscape_head [OF s4(2) [symmetric] h(4)] obtain s5 where
    s5: "s4 = h4 # s5" by blast
  have "escapeAt (c # 0x75 # h1 # h2 # h3 # h4 # rest) = Some v"
    using assms by (simp only: e)
  then have "escapeAt (c # 0x75 # h1 # h2 # h3 # h4 # s5) = Some v"
    by simp
  moreover have "s = 0x75 # h1 # h2 # h3 # h4 # s5"
    by (simp only: s1 s2 s3 s4 s5)
  ultimately show ?thesis
    by (simp only:)
qed

lemma decode_plain:
  assumes "escapeAt (c # s) = None"
  shows "decodeEscapes (c # bashEscape s) = c # decodeEscapes (bashEscape s)"
proof (cases "escapeAt (c # bashEscape s)")
  case None
  then show ?thesis by simp
next
  case (Some v)
  then have "escapeAt (c # s) = Some v" by (rule escapeAt_bashEscape)
  with assms show ?thesis by simp
qed

lemma decode_bashEscape:
  "\<not> hasSurrogatePair s \<Longrightarrow> \<not> hasEscape s \<Longrightarrow> decodeEscapes (bashEscape s) = s"
proof (induction s rule: bashEscape.induct)
  case 1
  then show ?case by simp
next
  case (2 c)
  then show ?case
    using decode_replacer [of c "[]" "[]"] by (simp del: replacer.simps)
next
  case (3 c d s)
  from "3.prems" have nopair: "\<not> (isHighSurrogate c \<and> isLowSurrogate d)"
    and rest: "\<not> hasSurrogatePair (d # s)" "\<not> hasEscape (d # s)"
    and here: "escapeAt (c # d # s) = None"
    by simp_all
  have ih: "decodeEscapes (bashEscape (d # s)) = d # s"
  proof (cases "isAscii c")
    case True
    with nopair rest show ?thesis by (intro "3.IH"(2)) simp_all
  next
    case False
    with nopair rest show ?thesis by (intro "3.IH"(3)) simp_all
  qed
  show ?case
  proof (cases "isAscii c")
    case True
    have "bashEscape (c # d # s) = c # bashEscape (d # s)"
      using nopair True by (auto simp del: replacer.simps)
    then show ?thesis
      using decode_plain [OF here] ih by simp
  next
    case False
    have "bashEscape (c # d # s) = replacer [c] @ bashEscape (d # s)"
      using nopair False by (auto simp del: replacer.simps)
    then show ?thesis
      using decode_replacer [of c "[]" "bashEscape (d # s)"] ih by simp
  qed
qed

lemma bashEscape_ascii_identity: "list_all isAscii s \<Longrightarrow> bashEscape s = s"
proof (induction s rule: bashEscape.induct)
  case (3 c d s)
  then have "\<not> isHighSurrogate c"
    by (auto simp: isAscii_def isHighSurrogate_def word_le_nat_alt)
  with 3 show ?case by simp
qed simp_all

text \<open>
  C2, as amended. For every string without a character outside the Basic Multilingual
  Plane (no high surrogate followed by a low surrogate) and without an escape sequence
  written out in it (a backslash, \<open>u\<close> and four hexadecimal digits), decoding the
  escape sequences of its \<open>bashEscape\<close> gives the string back. On a string of ASCII
  characters \<open>bashEscape\<close> is the identity.
\<close>

theorem bashEscape_roundtrip:
  "(\<not> hasSurrogatePair s \<and> \<not> hasEscape s \<longrightarrow> decodeEscapes (bashEscape s) = s) \<and>
   (list_all isAscii s \<longrightarrow> bashEscape s = s)"
  by (simp add: decode_bashEscape bashEscape_ascii_identity)

theorem bashEscape_roundtrip_witness:
  "\<not> hasSurrogatePair (lit ''caf'' @ [0xE9]) \<and> \<not> hasEscape (lit ''caf'' @ [0xE9]) \<and>
   decodeEscapes (bashEscape (lit ''caf'' @ [0xE9])) = lit ''caf'' @ [0xE9] \<and>
   list_all isAscii (lit ''cafe'') \<and> bashEscape (lit ''cafe'') = lit ''cafe''"
proof -
  have plain: "\<not> hasSurrogatePair (lit ''caf'' @ [0xE9]) \<and> \<not> hasEscape (lit ''caf'' @ [0xE9])"
    by (simp add: lit_def isHighSurrogate_def)
  have ascii: "list_all isAscii (lit ''cafe'')"
    by (simp add: lit_def isAscii_def)
  from plain ascii bashEscape_roundtrip [of "lit ''caf'' @ [0xE9]"] bashEscape_roundtrip [of "lit ''cafe''"]
  show ?thesis by blast
qed

text \<open>
  The round trip as the specification states it, for every string, fails in two ways.
  A string that spells an escape sequence out in ASCII is left as it is by
  \<open>bashEscape\<close> and changed by the decoder. Of a character outside the Basic
  Multilingual Plane only the high surrogate is written, so the low surrogate is lost.
\<close>

theorem bashEscape_roundtrip_counterexample:
  "decodeEscapes (bashEscape ([backslash] @ lit ''u0041'')) = lit ''A'' \<and>
   decodeEscapes (bashEscape ([backslash] @ lit ''u0041'')) \<noteq> [backslash] @ lit ''u0041'' \<and>
   bashEscape [0xD83D, 0xDE00] = [backslash] @ lit ''ud83d'' \<and>
   decodeEscapes (bashEscape [0xD83D, 0xDE00]) \<noteq> [0xD83D, 0xDE00]"
proof -
  have written: "bashEscape ([backslash] @ lit ''u0041'') = [backslash] @ lit ''u0041''"
    by (simp add: lit_def backslash_def isAscii_def isHighSurrogate_def)
  have read: "decodeEscapes ([backslash] @ lit ''u0041'') = lit ''A''"
    by (simp add: lit_def backslash_def hexValue_def)
  have astral: "bashEscape [0xD83D, 0xDE00] = [backslash] @ lit ''ud83d''"
    by (simp add: lit_def isHighSurrogate_def isLowSurrogate_def padStart_def
        toStringRadix.simps digitChar_def)
  have half: "decodeEscapes ([backslash] @ lit ''ud83d'') = [0xD83D]"
    by (simp add: lit_def backslash_def hexValue_def)
  have first: "decodeEscapes (bashEscape ([backslash] @ lit ''u0041'')) = lit ''A''"
    by (simp only: written read)
  have second: "decodeEscapes (bashEscape [0xD83D, 0xDE00]) = [0xD83D]"
    by (simp only: astral half)
  have "lit ''A'' \<noteq> [backslash] @ lit ''u0041''"
    by (simp add: lit_def)
  with first have changed: "decodeEscapes (bashEscape ([backslash] @ lit ''u0041''))
      \<noteq> [backslash] @ lit ''u0041''"
    by metis
  have "[0xD83D] \<noteq> [0xD83D, 0xDE00 :: 16 word]"
    by simp
  with second have lost: "decodeEscapes (bashEscape [0xD83D, 0xDE00]) \<noteq> [0xD83D, 0xDE00]"
    by metis
  from first changed astral lost show ?thesis
    by blast
qed

section \<open>The install script\<close>

lemma replacer_escapeSequence: "replacer (c # m) = escapeSequence c"
  by (simp only: replacer_single escapeSequence_def)

lemma ascii_not_high: "isAscii c \<Longrightarrow> \<not> isHighSurrogate c"
  by (auto simp: isAscii_def isHighSurrogate_def word_le_nat_alt)

lemma bashEscape_ascii_char: "isAscii c \<Longrightarrow> bashEscape (c # s) = c # bashEscape s"
  by (cases s) (simp_all add: ascii_not_high del: replacer.simps)

lemma bashEscape_last_char: "\<not> isAscii c \<Longrightarrow> bashEscape [c] = escapeSequence c"
  by (simp add: replacer_escapeSequence del: replacer.simps)

lemma bashEscape_bmp_char:
  "\<not> isAscii c \<Longrightarrow> \<not> (isHighSurrogate c \<and> isLowSurrogate d) \<Longrightarrow>
     bashEscape (c # d # s) = escapeSequence c @ bashEscape (d # s)"
  by (auto simp: replacer_escapeSequence simp del: replacer.simps)

lemma bashEscape_pair:
  "isHighSurrogate c \<Longrightarrow> isLowSurrogate d \<Longrightarrow>
     bashEscape (c # d # s) = escapeSequence c @ bashEscape s"
  by (simp add: replacer_escapeSequence del: replacer.simps)

lemma escapeSequence_ascii: "list_all isAscii (escapeSequence c)"
  using replacer_ascii [of "[c]"] by (simp only: replacer_escapeSequence)

lemma escapeSequence_decodes: "escapeAt (escapeSequence c @ rest) = Some c"
  using escapeAt_replacer [of c "[]" rest] by (simp only: replacer_escapeSequence)

lemma tokenChar_ascii: "tokenChar c \<Longrightarrow> isAscii c"
  by (auto simp: tokenChar_def isAscii_def word_le_nat_alt)

lemma lit_ascii_consts:
  "list_all isAscii (lit ''#!/bin/bash -eu'')"
  "list_all isAscii (lit ''export DO_ACCESS_TOKEN='')"
  "list_all isAscii (lit ''export SB_IMAGE='')"
  "list_all isAscii (lit ''export WATCHTOWER_REFRESH_SECONDS='')"
  "list_all isAscii (lit ''export SENTRY_API_URL='')"
  "list_all isAscii (lit ''export SB_METRICS_URL='')"
  "list_all isAscii (lit ''export SB_DEFAULT_SERVER_NAME='')"
  "list_all isAscii (lit ''$(printf '')"
  "list_all isAscii (lit '')'')"
  "list_all isAscii (lit ''-'')"
  "isAscii quote" "isAscii dquote" "isAscii newline"
  by (simp_all add: lit_def isAscii_def quote_def dquote_def newline_def)

lemma toStringRadix10_ascii: "list_all isAscii (toStringRadix 10 n)"
proof (induction n rule: less_induct)
  case (less n)
  have digit: "isAscii (digitChar d)" if "d < 10" for d
    using that by (intro digitChar_ascii) simp
  show ?case
  proof (cases "n < 10")
    case True
    then show ?thesis by (simp add: toStringRadix.simps [of 10 n] digit)
  next
    case False
    then have "n div 10 < n" by simp
    then have "list_all isAscii (toStringRadix 10 (n div 10))" by (rule less.IH)
    with False show ?thesis
      by (simp add: toStringRadix.simps [of 10 n] digit)
  qed
qed

lemma numberToString_ascii: "list_all isAscii (numberToString i)"
  by (simp add: numberToString_def toStringRadix10_ascii lit_ascii_consts)

lemma nameLine_ascii: "list_all isAscii (nameLine (bashEscape name))"
  by (simp add: nameLine_def lit_ascii_consts bashEscape_all_ascii)

lemma getInstallScript_shape:
  assumes "getInstallScript payload token name settings = Inr script"
  shows "\<exists>t. sanitizeDigitalOceanToken token = Inr t \<and>
           script = tokenLines t @ imageLine settings @ watchtowerLine settings
                      @ sentryLine settings @ metricsLine settings
                      @ nameLine (bashEscape name) @ payload"
proof (cases "sanitizeDigitalOceanToken token")
  case (Inl e)
  with assms show ?thesis by (simp add: getInstallScript_def)
next
  case (Inr t)
  with assms have "script = tokenLines t @ imageLine settings @ watchtowerLine settings
                      @ sentryLine settings @ metricsLine settings
                      @ nameLine (bashEscape name) @ payload"
    unfolding getInstallScript_def tokenLines_def imageLine_def watchtowerLine_def
      sentryLine_def metricsLine_def nameLine_def
    by simp
  with Inr show ?thesis by blast
qed

lemma endsLine_append: "endsLine xs \<Longrightarrow> ys = [] \<or> endsLine ys \<Longrightarrow> endsLine (xs @ ys)"
  by (auto simp: endsLine_def)

lemma endsLine_parts:
  "endsLine (tokenLines t)"
  "imageLine settings = [] \<or> endsLine (imageLine settings)"
  "watchtowerLine settings = [] \<or> endsLine (watchtowerLine settings)"
  "sentryLine settings = [] \<or> endsLine (sentryLine settings)"
  "metricsLine settings = [] \<or> endsLine (metricsLine settings)"
  by (simp_all add: endsLine_def tokenLines_def imageLine_def watchtowerLine_def sentryLine_def
      metricsLine_def split: option.split)

lemma getInstallScript_name_line:
  assumes "getInstallScript payload token name settings = Inr script"
  shows "\<exists>before. before \<noteq> [] \<and> last before = newline \<and>
           script = before @ nameLine (bashEscape name) @ payload"
proof -
  from getInstallScript_shape [OF assms] obtain t where
    script: "script = tokenLines t @ imageLine settings @ watchtowerLine settings
                      @ sentryLine settings @ metricsLine settings
                      @ nameLine (bashEscape name) @ payload"
    by blast
  let ?before = "(((tokenLines t @ imageLine settings) @ watchtowerLine settings)
                      @ sentryLine settings) @ metricsLine settings"
  have "endsLine ?before"
    by (intro endsLine_append endsLine_parts)
  then have nonempty: "?before \<noteq> []" and final: "last ?before = newline"
    unfolding endsLine_def by (rule conjunct1, rule conjunct2)
  have whole: "script = ?before @ nameLine (bashEscape name) @ payload"
    by (simp only: script append_assoc)
  show ?thesis
    by (rule exI [of _ ?before]) (intro conjI nonempty final whole)
qed

lemma getInstallScript_all_ascii:
  assumes "getInstallScript payload token name settings = Inr script"
    and "list_all isAscii payload" "list_all isAscii (imageId settings)"
    "list_all isAscii (metricsUrl settings)"
    "\<forall>url. sentryApiUrl settings = Some url \<longrightarrow> list_all isAscii url"
  shows "list_all isAscii script"
proof -
  from getInstallScript_shape [OF assms(1)] obtain t where
    t: "sanitizeDigitalOceanToken token = Inr t" and
    script: "script = tokenLines t @ imageLine settings @ watchtowerLine settings
                      @ sentryLine settings @ metricsLine settings
                      @ nameLine (bashEscape name) @ payload"
    by blast
  from sanitize_result [OF t] have "list_all tokenChar t" by blast
  then have "list_all isAscii t"
    by (auto simp: list_all_iff tokenChar_ascii)
  then have "list_all isAscii (tokenLines t)"
    by (simp add: tokenLines_def lit_ascii_consts)
  moreover have "list_all isAscii (imageLine settings)"
    using assms(3) by (simp add: imageLine_def lit_ascii_consts)
  moreover have "list_all isAscii (watchtowerLine settings)"
    by (simp add: watchtowerLine_def lit_ascii_consts numberToString_ascii split: option.split)
  moreover have "list_all isAscii (sentryLine settings)"
    using assms(5) by (simp add: sentryLine_def lit_ascii_consts split: option.split)
  moreover have "list_all isAscii (metricsLine settings)"
    using assms(4) by (simp add: metricsLine_def lit_ascii_consts)
  ultimately show ?thesis
    using assms(2) by (simp add: script nameLine_ascii)
qed

lemma sublist_split_at:
  assumes "q \<notin> set N"
  shows "sublist N (xs @ q # ys) \<longleftrightarrow> sublist N xs \<or> sublist N ys"
proof
  assume "sublist N (xs @ q # ys)"
  then consider "sublist N xs" | "sublist N (q # ys)"
    | xs1 xs2 where "N = xs1 @ xs2" "suffix xs1 xs" "prefix xs2 (q # ys)"
    unfolding sublist_append by blast
  then show "sublist N xs \<or> sublist N ys"
  proof cases
    case 1
    then show ?thesis by simp
  next
    case 2
    then have "prefix N (q # ys) \<or> sublist N ys"
      by (simp add: sublist_Cons_right)
    moreover have "\<not> prefix N (q # ys)" if "N \<noteq> []"
      using that assms by (cases N) auto
    moreover have "sublist N ys" if "N = []"
      using that by simp
    ultimately show ?thesis by blast
  next
    case 3
    from 3(3) have "xs2 = [] \<or> (\<exists>zs. xs2 = q # zs)"
      by (cases xs2) auto
    with assms 3(1) have "xs2 = []" by auto
    with 3 have "suffix N xs" by simp
    then show ?thesis by (auto simp: suffix_def)
  qed
next
  assume "sublist N xs \<or> sublist N ys"
  then show "sublist N (xs @ q # ys)"
  proof
    assume "sublist N xs"
    then obtain ps ss where "xs = ps @ N @ ss" by (auto simp: sublist_def)
    then have "xs @ q # ys = ps @ N @ (ss @ q # ys)" by simp
    then show ?thesis unfolding sublist_def by blast
  next
    assume "sublist N ys"
    then obtain ps ss where "ys = ps @ N @ ss" by (auto simp: sublist_def)
    then have "xs @ q # ys = (xs @ q # ps) @ N @ ss" by simp
    then show ?thesis unfolding sublist_def by blast
  qed
qed

lemma sublist_export_line:
  assumes "quote \<notin> set N" "newline \<notin> set N" "N \<noteq> []"
  shows "sublist N (P @ [quote] @ v @ [quote, newline] @ rest)
           \<longleftrightarrow> sublist N P \<or> sublist N v \<or> sublist N rest"
proof -
  have "sublist N (P @ quote # (v @ quote # ([] @ newline # rest)))
          \<longleftrightarrow> sublist N P \<or> sublist N v \<or> sublist N [] \<or> sublist N rest"
    by (simp only: sublist_split_at [OF assms(1)] sublist_split_at [OF assms(2)])
  with assms(3) show ?thesis by simp
qed

lemma sublist_name_line:
  assumes "quote \<notin> set N" "dquote \<notin> set N" "newline \<notin> set N" "N \<noteq> []"
  shows "sublist N (nameLine escaped @ payload)
           \<longleftrightarrow> sublist N (lit ''export SB_DEFAULT_SERVER_NAME='') \<or> sublist N (lit ''$(printf '')
               \<or> sublist N escaped \<or> sublist N (lit '')'') \<or> sublist N payload"
proof -
  have "sublist N (lit ''export SB_DEFAULT_SERVER_NAME='' @ dquote # (lit ''$(printf '' @ quote
          # (escaped @ quote # (lit '')'' @ dquote # ([] @ newline # payload)))))
          \<longleftrightarrow> sublist N (lit ''export SB_DEFAULT_SERVER_NAME='') \<or> sublist N (lit ''$(printf '')
               \<or> sublist N escaped \<or> sublist N (lit '')'') \<or> sublist N [] \<or> sublist N payload"
    by (simp only: sublist_split_at [OF assms(1)] sublist_split_at [OF assms(2)]
        sublist_split_at [OF assms(3)])
  with assms(4) show ?thesis by (simp add: nameLine_def)
qed

lemma sublist_token_lines:
  assumes "quote \<notin> set N" "newline \<notin> set N" "N \<noteq> []"
  shows "sublist N (tokenLines t @ rest)
           \<longleftrightarrow> sublist N (lit ''#!/bin/bash -eu'') \<or> sublist N (lit ''export DO_ACCESS_TOKEN='')
               \<or> sublist N t \<or> sublist N rest"
proof -
  have "sublist N (lit ''#!/bin/bash -eu'' @ newline # (lit ''export DO_ACCESS_TOKEN='' @ quote
          # (t @ quote # ([] @ newline # rest))))
          \<longleftrightarrow> sublist N (lit ''#!/bin/bash -eu'') \<or> sublist N (lit ''export DO_ACCESS_TOKEN='')
               \<or> sublist N t \<or> sublist N [] \<or> sublist N rest"
    by (simp only: sublist_split_at [OF assms(1)] sublist_split_at [OF assms(2)])
  with assms(3) show ?thesis by (simp add: tokenLines_def)
qed

lemma sublist_image_line:
  assumes "quote \<notin> set N" "newline \<notin> set N" "N \<noteq> []"
  shows "sublist N (imageLine settings @ rest)
           \<longleftrightarrow> (imageId settings \<noteq> [] \<and>
                 (sublist N (lit ''export SB_IMAGE='') \<or> sublist N (imageId settings)))
               \<or> sublist N rest"
  using sublist_export_line [OF assms, of "lit ''export SB_IMAGE=''" "imageId settings" rest]
  by (auto simp: imageLine_def)

lemma sublist_metrics_line:
  assumes "quote \<notin> set N" "newline \<notin> set N" "N \<noteq> []"
  shows "sublist N (metricsLine settings @ rest)
           \<longleftrightarrow> (metricsUrl settings \<noteq> [] \<and>
                 (sublist N (lit ''export SB_METRICS_URL='') \<or> sublist N (metricsUrl settings)))
               \<or> sublist N rest"
  using sublist_export_line [OF assms, of "lit ''export SB_METRICS_URL=''" "metricsUrl settings" rest]
  by (auto simp: metricsLine_def)

lemma sublist_sentry_line:
  assumes "quote \<notin> set N" "newline \<notin> set N" "N \<noteq> []"
  shows "sublist N (sentryLine settings @ rest)
           \<longleftrightarrow> (\<exists>url. sentryApiUrl settings = Some url \<and> url \<noteq> [] \<and>
                 (sublist N (lit ''export SENTRY_API_URL='') \<or> sublist N url))
               \<or> sublist N rest"
proof (cases "sentryApiUrl settings")
  case None
  then show ?thesis by (simp add: sentryLine_def)
next
  case (Some url)
  then show ?thesis
    using sublist_export_line [OF assms, of "lit ''export SENTRY_API_URL=''" url rest]
    by (auto simp: sentryLine_def)
qed

lemma sublist_watchtower_line:
  assumes "quote \<notin> set N" "newline \<notin> set N" "N \<noteq> []"
  shows "sublist N (watchtowerLine settings @ rest)
           \<longleftrightarrow> (\<exists>n. watchtowerRefreshSeconds settings = Some n \<and> n \<noteq> 0 \<and>
                 (sublist N (lit ''export WATCHTOWER_REFRESH_SECONDS='')
                  \<or> sublist N (numberToString n)))
               \<or> sublist N rest"
proof (cases "watchtowerRefreshSeconds settings")
  case None
  then show ?thesis by (simp add: watchtowerLine_def)
next
  case (Some n)
  then show ?thesis
    using sublist_export_line [OF assms, of "lit ''export WATCHTOWER_REFRESH_SECONDS=''"
        "numberToString n" rest]
    by (auto simp: watchtowerLine_def)
qed

lemma watchtower_needle:
  "quote \<notin> set (lit ''export WATCHTOWER_REFRESH_SECONDS='')"
  "dquote \<notin> set (lit ''export WATCHTOWER_REFRESH_SECONDS='')"
  "newline \<notin> set (lit ''export WATCHTOWER_REFRESH_SECONDS='')"
  "lit ''export WATCHTOWER_REFRESH_SECONDS='' \<noteq> []"
  "0x20 \<in> set (lit ''export WATCHTOWER_REFRESH_SECONDS='')"
  by (simp_all add: lit_def quote_def dquote_def newline_def)

lemma sentry_needle:
  "quote \<notin> set (lit ''export SENTRY_API_URL='')"
  "dquote \<notin> set (lit ''export SENTRY_API_URL='')"
  "newline \<notin> set (lit ''export SENTRY_API_URL='')"
  "lit ''export SENTRY_API_URL='' \<noteq> []"
  "0x20 \<in> set (lit ''export SENTRY_API_URL='')"
  by (simp_all add: lit_def quote_def dquote_def newline_def)

lemma watchtower_fixed:
  "\<not> sublist (lit ''export WATCHTOWER_REFRESH_SECONDS='') (lit ''#!/bin/bash -eu'')"
  "\<not> sublist (lit ''export WATCHTOWER_REFRESH_SECONDS='') (lit ''export DO_ACCESS_TOKEN='')"
  "\<not> sublist (lit ''export WATCHTOWER_REFRESH_SECONDS='') (lit ''export SB_IMAGE='')"
  "\<not> sublist (lit ''export WATCHTOWER_REFRESH_SECONDS='') (lit ''export SENTRY_API_URL='')"
  "\<not> sublist (lit ''export WATCHTOWER_REFRESH_SECONDS='') (lit ''export SB_METRICS_URL='')"
  "\<not> sublist (lit ''export WATCHTOWER_REFRESH_SECONDS='') (lit ''export SB_DEFAULT_SERVER_NAME='')"
  "\<not> sublist (lit ''export WATCHTOWER_REFRESH_SECONDS='') (lit ''$(printf '')"
  "\<not> sublist (lit ''export WATCHTOWER_REFRESH_SECONDS='') (lit '')'')"
  by code_simp+

lemma sentry_fixed:
  "\<not> sublist (lit ''export SENTRY_API_URL='') (lit ''#!/bin/bash -eu'')"
  "\<not> sublist (lit ''export SENTRY_API_URL='') (lit ''export DO_ACCESS_TOKEN='')"
  "\<not> sublist (lit ''export SENTRY_API_URL='') (lit ''export SB_IMAGE='')"
  "\<not> sublist (lit ''export SENTRY_API_URL='') (lit ''export WATCHTOWER_REFRESH_SECONDS='')"
  "\<not> sublist (lit ''export SENTRY_API_URL='') (lit ''export SB_METRICS_URL='')"
  "\<not> sublist (lit ''export SENTRY_API_URL='') (lit ''export SB_DEFAULT_SERVER_NAME='')"
  "\<not> sublist (lit ''export SENTRY_API_URL='') (lit ''$(printf '')"
  "\<not> sublist (lit ''export SENTRY_API_URL='') (lit '')'')"
  by code_simp+

lemma space_not_tokenChar: "\<not> tokenChar 0x20"
  by (simp add: tokenChar_def)

lemma token_no_space:
  assumes "list_all tokenChar t" "0x20 \<in> set N"
  shows "\<not> sublist N t"
proof
  assume "sublist N t"
  then have "set N \<subseteq> set t" by (rule set_mono_sublist)
  with assms(2) have "0x20 \<in> set t" by blast
  with assms(1) have "tokenChar 0x20" by (simp add: list_all_iff)
  then show False by (simp add: space_not_tokenChar)
qed

lemma digitChar_not_space: "d < 16 \<Longrightarrow> digitChar d \<noteq> 0x20"
  by (erule digit_cases) (simp_all add: digitChar_def)

lemma toStringRadix10_no_space: "0x20 \<notin> set (toStringRadix 10 n)"
proof (induction n rule: less_induct)
  case (less n)
  have digit: "digitChar d \<noteq> 0x20" if "d < 10" for d
    using that by (intro digitChar_not_space) simp
  show ?case
  proof (cases "n < 10")
    case True
    then show ?thesis
      using digit [of n] by (simp add: toStringRadix.simps [of 10 n])
  next
    case False
    then have "n div 10 < n" by simp
    then have "0x20 \<notin> set (toStringRadix 10 (n div 10))" by (rule less.IH)
    with False show ?thesis
      using digit [of "n mod 10"] by (simp add: toStringRadix.simps [of 10 n])
  qed
qed

lemma number_no_space:
  assumes "0x20 \<in> set N"
  shows "\<not> sublist N (numberToString i)"
proof
  assume "sublist N (numberToString i)"
  then have "set N \<subseteq> set (numberToString i)" by (rule set_mono_sublist)
  with assms have "0x20 \<in> set (numberToString i)" by blast
  then show False
    by (simp add: numberToString_def toStringRadix10_no_space lit_def split: if_splits)
qed

lemma watchtower_export_iff:
  assumes "getInstallScript payload token name settings = Inr script"
    and "\<not> sublist (lit ''export WATCHTOWER_REFRESH_SECONDS='') payload"
    and "\<not> sublist (lit ''export WATCHTOWER_REFRESH_SECONDS='') (bashEscape name)"
    and "\<not> sublist (lit ''export WATCHTOWER_REFRESH_SECONDS='') (imageId settings)"
    and "\<not> sublist (lit ''export WATCHTOWER_REFRESH_SECONDS='') (metricsUrl settings)"
    and "\<forall>url. sentryApiUrl settings = Some url \<longrightarrow>
           \<not> sublist (lit ''export WATCHTOWER_REFRESH_SECONDS='') url"
  shows "sublist (lit ''export WATCHTOWER_REFRESH_SECONDS='') script
           \<longleftrightarrow> (\<exists>n. watchtowerRefreshSeconds settings = Some n \<and> n \<noteq> 0)"
proof -
  let ?N = "lit ''export WATCHTOWER_REFRESH_SECONDS=''"
  from getInstallScript_shape [OF assms(1)] obtain t where
    t: "sanitizeDigitalOceanToken token = Inr t" and
    script: "script = tokenLines t @ imageLine settings @ watchtowerLine settings
                      @ sentryLine settings @ metricsLine settings
                      @ nameLine (bashEscape name) @ payload"
    by blast
  from sanitize_result [OF t] have "list_all tokenChar t" by blast
  then have token: "\<not> sublist ?N t"
    by (rule token_no_space) (rule watchtower_needle)
  have "sublist ?N ?N" by simp
  then show ?thesis
    unfolding script
    by (simp only: sublist_token_lines [OF watchtower_needle(1,3,4)]
        sublist_image_line [OF watchtower_needle(1,3,4)]
        sublist_watchtower_line [OF watchtower_needle(1,3,4)]
        sublist_sentry_line [OF watchtower_needle(1,3,4)]
        sublist_metrics_line [OF watchtower_needle(1,3,4)]
        sublist_name_line [OF watchtower_needle(1,2,3,4)]
        watchtower_fixed token assms(2-5) simp_thms)
      (use assms(6) in blast)
qed

lemma sentry_export_iff:
  assumes "getInstallScript payload token name settings = Inr script"
    and "\<not> sublist (lit ''export SENTRY_API_URL='') payload"
    and "\<not> sublist (lit ''export SENTRY_API_URL='') (bashEscape name)"
    and "\<not> sublist (lit ''export SENTRY_API_URL='') (imageId settings)"
    and "\<not> sublist (lit ''export SENTRY_API_URL='') (metricsUrl settings)"
  shows "sublist (lit ''export SENTRY_API_URL='') script
           \<longleftrightarrow> (\<exists>url. sentryApiUrl settings = Some url \<and> url \<noteq> [])"
proof -
  let ?N = "lit ''export SENTRY_API_URL=''"
  from getInstallScript_shape [OF assms(1)] obtain t where
    t: "sanitizeDigitalOceanToken token = Inr t" and
    script: "script = tokenLines t @ imageLine settings @ watchtowerLine settings
                      @ sentryLine settings @ metricsLine settings
                      @ nameLine (bashEscape name) @ payload"
    by blast
  from sanitize_result [OF t] have "list_all tokenChar t" by blast
  then have token: "\<not> sublist ?N t"
    by (rule token_no_space) (rule sentry_needle)
  have number: "\<not> sublist ?N (numberToString n)" for n
    by (rule number_no_space) (rule sentry_needle)
  have "sublist ?N ?N" by simp
  then show ?thesis
    unfolding script
    by (simp only: sublist_token_lines [OF sentry_needle(1,3,4)]
        sublist_image_line [OF sentry_needle(1,3,4)]
        sublist_watchtower_line [OF sentry_needle(1,3,4)]
        sublist_sentry_line [OF sentry_needle(1,3,4)]
        sublist_metrics_line [OF sentry_needle(1,3,4)]
        sublist_name_line [OF sentry_needle(1,2,3,4)]
        sentry_fixed token number assms(2-5) simp_thms)
qed

lemma watchtower_export_line:
  assumes "getInstallScript payload token name settings = Inr script"
    and "watchtowerRefreshSeconds settings = Some n" "n \<noteq> 0"
  shows "sublist (lit ''export WATCHTOWER_REFRESH_SECONDS='' @ [quote] @ numberToString n
                    @ [quote, newline]) script"
proof -
  from getInstallScript_shape [OF assms(1)] obtain t where
    script: "script = tokenLines t @ imageLine settings @ watchtowerLine settings
                      @ sentryLine settings @ metricsLine settings
                      @ nameLine (bashEscape name) @ payload"
    by blast
  have line: "watchtowerLine settings = lit ''export WATCHTOWER_REFRESH_SECONDS='' @ [quote]
                @ numberToString n @ [quote, newline]"
    using assms(2,3) by (simp add: watchtowerLine_def)
  have "script = (tokenLines t @ imageLine settings) @ watchtowerLine settings
                   @ (sentryLine settings @ metricsLine settings
                      @ nameLine (bashEscape name) @ payload)"
    by (simp only: script append_assoc)
  then have "sublist (watchtowerLine settings) script"
    unfolding sublist_def by blast
  then show ?thesis by (simp only: line)
qed

lemma sentry_export_line:
  assumes "getInstallScript payload token name settings = Inr script"
    and "sentryApiUrl settings = Some url" "url \<noteq> []"
  shows "sublist (lit ''export SENTRY_API_URL='' @ [quote] @ url @ [quote, newline]) script"
proof -
  from getInstallScript_shape [OF assms(1)] obtain t where
    script: "script = tokenLines t @ imageLine settings @ watchtowerLine settings
                      @ sentryLine settings @ metricsLine settings
                      @ nameLine (bashEscape name) @ payload"
    by blast
  have line: "sentryLine settings = lit ''export SENTRY_API_URL='' @ [quote] @ url
                @ [quote, newline]"
    using assms(2,3) by (simp add: sentryLine_def)
  have "script = (tokenLines t @ imageLine settings @ watchtowerLine settings)
                   @ sentryLine settings @ (metricsLine settings
                      @ nameLine (bashEscape name) @ payload)"
    by (simp only: script append_assoc)
  then have "sublist (sentryLine settings) script"
    unfolding sublist_def by blast
  then show ?thesis by (simp only: line)
qed

lemma example_script:
  "\<exists>script. getInstallScript payload (lit ''dop_v1/ab-CD_09'') name settings = Inr script"
proof -
  have "sanitizeDigitalOceanToken (lit ''dop_v1/ab-CD_09'') = Inr (lit ''dop_v1/ab-CD_09'')"
    using sanitize_accepts [of "[]" "[]" "lit ''dop_v1/ab-CD_09''"]
    by (simp add: lit_def tokenChar_def)
  then show ?thesis
    by (simp add: getInstallScript_def)
qed

text \<open>
  C10. For every string, one with characters outside the Basic Multilingual Plane
  included, the result of \<open>bashEscape\<close> holds ASCII characters only, because every
  character outside ASCII is replaced by an escape sequence and nothing else is
  changed: an ASCII character is copied; a character outside ASCII that is a code
  unit of its own (a lone surrogate included) becomes the escape sequence of that code
  unit; a surrogate pair becomes the escape sequence of its high surrogate; and an
  escape sequence is made of ASCII characters. Every script that \<open>getInstallScript\<close>
  returns ends with the line that sets the default server name, built from
  \<open>bashEscape\<close> of the name, followed by \<open>SCRIPT\<close>; the line starts where a line
  ends and holds ASCII characters only, whatever the name. When \<open>SCRIPT\<close>, the image
  id and the two URLs are ASCII too, so is the whole script.
\<close>

theorem bashEscape_ascii:
  "list_all isAscii (bashEscape s) \<and>
   (isAscii c \<longrightarrow> bashEscape (c # s) = c # bashEscape s) \<and>
   (\<not> isAscii c \<longrightarrow> bashEscape [c] = escapeSequence c) \<and>
   (\<not> isAscii c \<and> \<not> (isHighSurrogate c \<and> isLowSurrogate d) \<longrightarrow>
      bashEscape (c # d # s) = escapeSequence c @ bashEscape (d # s)) \<and>
   (isHighSurrogate c \<and> isLowSurrogate d \<longrightarrow>
      bashEscape (c # d # s) = escapeSequence c @ bashEscape s) \<and>
   list_all isAscii (escapeSequence c) \<and>
   (getInstallScript payload token name settings = Inr script \<longrightarrow>
      (\<exists>before. before \<noteq> [] \<and> last before = newline \<and>
         script = before @ nameLine (bashEscape name) @ payload) \<and>
      list_all isAscii (nameLine (bashEscape name)) \<and>
      (list_all isAscii payload \<and> list_all isAscii (imageId settings) \<and>
       list_all isAscii (metricsUrl settings) \<and>
       (\<forall>url. sentryApiUrl settings = Some url \<longrightarrow> list_all isAscii url)
         \<longrightarrow> list_all isAscii script))"
proof (intro conjI impI)
  show "list_all isAscii (bashEscape s)"
    by (rule bashEscape_all_ascii)
  show "bashEscape (c # s) = c # bashEscape s" if "isAscii c"
    using that by (rule bashEscape_ascii_char)
  show "bashEscape [c] = escapeSequence c" if "\<not> isAscii c"
    using that by (rule bashEscape_last_char)
  show "bashEscape (c # d # s) = escapeSequence c @ bashEscape (d # s)"
    if "\<not> isAscii c \<and> \<not> (isHighSurrogate c \<and> isLowSurrogate d)"
    using that by (intro bashEscape_bmp_char) simp_all
  show "bashEscape (c # d # s) = escapeSequence c @ bashEscape s"
    if "isHighSurrogate c \<and> isLowSurrogate d"
    using that by (intro bashEscape_pair) simp_all
  show "list_all isAscii (escapeSequence c)"
    by (rule escapeSequence_ascii)
  show "\<exists>before. before \<noteq> [] \<and> last before = newline \<and>
          script = before @ nameLine (bashEscape name) @ payload"
    if "getInstallScript payload token name settings = Inr script"
    using that by (rule getInstallScript_name_line)
  show "list_all isAscii (nameLine (bashEscape name))"
    by (rule nameLine_ascii)
  show "list_all isAscii script"
    if "getInstallScript payload token name settings = Inr script"
      and "list_all isAscii payload \<and> list_all isAscii (imageId settings) \<and>
       list_all isAscii (metricsUrl settings) \<and>
       (\<forall>url. sentryApiUrl settings = Some url \<longrightarrow> list_all isAscii url)"
    using that by (elim conjE) (rule getInstallScript_all_ascii [of payload token name settings])
qed

theorem bashEscape_ascii_witness:
  "bashEscape [0xD83D, 0xDE00] = [backslash] @ lit ''ud83d'' \<and>
   bashEscape (lit ''caf'' @ [0xE9]) = lit ''caf'' @ [backslash] @ lit ''u00e9'' \<and>
   (\<exists>script before.
      getInstallScript (lit ''echo installing'') (lit ''dop_v1/ab-CD_09'') (lit ''caf'' @ [0xE9])
        exampleSettings = Inr script \<and>
      script = before @ nameLine (lit ''caf'' @ [backslash] @ lit ''u00e9'') @ lit ''echo installing'' \<and>
      list_all isAscii script)"
proof -
  let ?name = "lit ''caf'' @ [0xE9]"
  obtain script where script: "getInstallScript (lit ''echo installing'') (lit ''dop_v1/ab-CD_09'')
      ?name exampleSettings = Inr script"
    using example_script by blast
  note facts = bashEscape_ascii [of "[]" "0xD83D" "0xDE00" "lit ''echo installing''"
      "lit ''dop_v1/ab-CD_09''" ?name exampleSettings script]
  have pair: "isHighSurrogate 0xD83D \<and> isLowSurrogate 0xDE00"
    by (simp add: isHighSurrogate_def isLowSurrogate_def)
  have written: "escapeSequence 0xD83D = [backslash] @ lit ''ud83d''"
    by (simp add: escapeSequence_def digitChar_def lit_def)
  from facts pair have "bashEscape [0xD83D, 0xDE00] = escapeSequence 0xD83D @ bashEscape []"
    by blast
  then have astral: "bashEscape [0xD83D, 0xDE00] = [backslash] @ lit ''ud83d''"
    by (simp only: written bashEscape.simps append_Nil2)
  have cafe: "bashEscape ?name = lit ''caf'' @ [backslash] @ lit ''u00e9''"
    by (simp add: lit_def isAscii_def isHighSurrogate_def replacer_escapeSequence
        escapeSequence_def digitChar_def del: replacer.simps)
  have ascii: "list_all isAscii (lit ''echo installing'') \<and>
      list_all isAscii (imageId exampleSettings) \<and> list_all isAscii (metricsUrl exampleSettings) \<and>
      (\<forall>url. sentryApiUrl exampleSettings = Some url \<longrightarrow> list_all isAscii url)"
    by (simp add: exampleSettings_def lit_def isAscii_def)
  from facts script ascii obtain before where
    "script = before @ nameLine (bashEscape ?name) @ lit ''echo installing''"
    "list_all isAscii script"
    by blast
  then have "script = before @ nameLine (lit ''caf'' @ [backslash] @ lit ''u00e9'') @ lit ''echo installing''"
    "list_all isAscii script"
    by (simp_all only: cafe)
  with script astral cafe show ?thesis by blast
qed

text \<open>
  C8, as amended. The conditions of \<open>getInstallScript\<close> test the value of an optional
  field, not its presence. In every script it returns, the export of
  \<open>WATCHTOWER_REFRESH_SECONDS\<close> occurs exactly when the refresh interval is present
  and not zero, and the export of \<open>SENTRY_API_URL\<close> occurs exactly when the
  error-reporting URL is present and not empty, provided the text
  \<open>export WATCHTOWER_REFRESH_SECONDS=\<close> (or \<open>export SENTRY_API_URL=\<close>) is not
  already written in \<open>SCRIPT\<close>, in the escaped name or in another field of the bundle.
  A field that is exported is exported as a whole line under its fixed name: the URL as
  it is, the interval in decimal. The interval is modelled for integers; the decimal
  digits stated are those that JavaScript prints for integers below \<open>2 ^ 53\<close> in
  magnitude.
\<close>

theorem getInstallScript_optional_exports:
  assumes "getInstallScript payload token name settings = Inr script"
  shows "(\<not> sublist (lit ''export WATCHTOWER_REFRESH_SECONDS='') payload \<and>
          \<not> sublist (lit ''export WATCHTOWER_REFRESH_SECONDS='') (bashEscape name) \<and>
          \<not> sublist (lit ''export WATCHTOWER_REFRESH_SECONDS='') (imageId settings) \<and>
          \<not> sublist (lit ''export WATCHTOWER_REFRESH_SECONDS='') (metricsUrl settings) \<and>
          (\<forall>url. sentryApiUrl settings = Some url \<longrightarrow>
             \<not> sublist (lit ''export WATCHTOWER_REFRESH_SECONDS='') url)
          \<longrightarrow> (sublist (lit ''export WATCHTOWER_REFRESH_SECONDS='') script
                 \<longleftrightarrow> (\<exists>n. watchtowerRefreshSeconds settings = Some n \<and> n \<noteq> 0)))
       \<and> (\<not> sublist (lit ''export SENTRY_API_URL='') payload \<and>
          \<not> sublist (lit ''export SENTRY_API_URL='') (bashEscape name) \<and>
          \<not> sublist (lit ''export SENTRY_API_URL='') (imageId settings) \<and>
          \<not> sublist (lit ''export SENTRY_API_URL='') (metricsUrl settings)
          \<longrightarrow> (sublist (lit ''export SENTRY_API_URL='') script
                 \<longleftrightarrow> (\<exists>url. sentryApiUrl settings = Some url \<and> url \<noteq> [])))
       \<and> (\<forall>n. watchtowerRefreshSeconds settings = Some n \<and> n \<noteq> 0 \<and> \<bar>n\<bar> < 2 ^ 53 \<longrightarrow>
             sublist (lit ''export WATCHTOWER_REFRESH_SECONDS='' @ [quote] @ numberToString n
                        @ [quote, newline]) script)
       \<and> (\<forall>url. sentryApiUrl settings = Some url \<and> url \<noteq> [] \<longrightarrow>
             sublist (lit ''export SENTRY_API_URL='' @ [quote] @ url @ [quote, newline]) script)"
proof (intro conjI impI allI)
  assume "\<not> sublist (lit ''export WATCHTOWER_REFRESH_SECONDS='') payload \<and>
          \<not> sublist (lit ''export WATCHTOWER_REFRESH_SECONDS='') (bashEscape name) \<and>
          \<not> sublist (lit ''export WATCHTOWER_REFRESH_SECONDS='') (imageId settings) \<and>
          \<not> sublist (lit ''export WATCHTOWER_REFRESH_SECONDS='') (metricsUrl settings) \<and>
          (\<forall>url. sentryApiUrl settings = Some url \<longrightarrow>
             \<not> sublist (lit ''export WATCHTOWER_REFRESH_SECONDS='') url)"
  then show "sublist (lit ''export WATCHTOWER_REFRESH_SECONDS='') script
                 \<longleftrightarrow> (\<exists>n. watchtowerRefreshSeconds settings = Some n \<and> n \<noteq> 0)"
    by (intro watchtower_export_iff [OF assms]) (elim conjE, assumption)+
next
  assume "\<not> sublist (lit ''export SENTRY_API_URL='') payload \<and>
          \<not> sublist (lit ''export SENTRY_API_URL='') (bashEscape name) \<and>
          \<not> sublist (lit ''export SENTRY_API_URL='') (imageId settings) \<and>
          \<not> sublist (lit ''export SENTRY_API_URL='') (metricsUrl settings)"
  then show "sublist (lit ''export SENTRY_API_URL='') script
                 \<longleftrightarrow> (\<exists>url. sentryApiUrl settings = Some url \<and> url \<noteq> [])"
    by (intro sentry_export_iff [OF assms]) (elim conjE, assumption)+
next
  fix n
  assume "watchtowerRefreshSeconds settings = Some n \<and> n \<noteq> 0 \<and> \<bar>n\<bar> < 2 ^ 53"
  then show "sublist (lit ''export WATCHTOWER_REFRESH_SECONDS='' @ [quote] @ numberToString n
                        @ [quote, newline]) script"
    by (intro watchtower_export_line [OF assms]) simp_all
next
  fix url
  assume "sentryApiUrl settings = Some url \<and> url \<noteq> []"
  then show "sublist (lit ''export SENTRY_API_URL='' @ [quote] @ url @ [quote, newline]) script"
    by (intro sentry_export_line [OF assms]) simp_all
qed

theorem getInstallScript_optional_exports_witness:
  "\<exists>script.
     getInstallScript (lit ''echo installing'') (lit ''dop_v1/ab-CD_09'') (lit ''my server'')
       exampleSettings = Inr script \<and>
     sublist (lit ''export WATCHTOWER_REFRESH_SECONDS='') script \<and>
     sublist (lit ''export WATCHTOWER_REFRESH_SECONDS='' @ [quote] @ lit ''3600'' @ [quote, newline])
       script \<and>
     \<not> sublist (lit ''export SENTRY_API_URL='') script"
proof -
  obtain script where script: "getInstallScript (lit ''echo installing'') (lit ''dop_v1/ab-CD_09'')
      (lit ''my server'') exampleSettings = Inr script"
    using example_script by blast
  note facts = getInstallScript_optional_exports [OF script]
  have name: "bashEscape (lit ''my server'') = lit ''my server''"
    by (rule bashEscape_ascii_identity) (simp add: lit_def isAscii_def)
  have fields: "imageId exampleSettings = lit ''quay.io/outline/shadowbox:stable''"
    "metricsUrl exampleSettings = lit ''https://metrics.example''"
    "sentryApiUrl exampleSettings = None" "watchtowerRefreshSeconds exampleSettings = Some 3600"
    by (simp_all add: exampleSettings_def)
  have clean1: "\<not> sublist (lit ''export WATCHTOWER_REFRESH_SECONDS='') (lit ''echo installing'')"
    "\<not> sublist (lit ''export WATCHTOWER_REFRESH_SECONDS='') (lit ''my server'')"
    "\<not> sublist (lit ''export WATCHTOWER_REFRESH_SECONDS='') (lit ''quay.io/outline/shadowbox:stable'')"
    "\<not> sublist (lit ''export WATCHTOWER_REFRESH_SECONDS='') (lit ''https://metrics.example'')"
    by code_simp+
  have clean2: "\<not> sublist (lit ''export SENTRY_API_URL='') (lit ''echo installing'')"
    "\<not> sublist (lit ''export SENTRY_API_URL='') (lit ''my server'')"
    "\<not> sublist (lit ''export SENTRY_API_URL='') (lit ''quay.io/outline/shadowbox:stable'')"
    "\<not> sublist (lit ''export SENTRY_API_URL='') (lit ''https://metrics.example'')"
    by code_simp+
  have decimal: "numberToString 3600 = lit ''3600''"
    by code_simp
  from facts clean1 have "sublist (lit ''export WATCHTOWER_REFRESH_SECONDS='') script"
    by (simp add: name fields)
  moreover from facts clean2 have "\<not> sublist (lit ''export SENTRY_API_URL='') script"
    by (simp add: name fields)
  moreover from facts have "sublist (lit ''export WATCHTOWER_REFRESH_SECONDS='' @ [quote]
      @ numberToString 3600 @ [quote, newline]) script"
    by (simp add: fields)
  ultimately show ?thesis
    using script by (simp only: decimal) blast
qed

text \<open>
  The claim as the specification states it, by presence, fails on a bundle whose
  refresh interval is zero and whose error-reporting URL is the empty string: both
  fields are present and neither is exported.
\<close>

theorem getInstallScript_optional_exports_counterexample:
  "watchtowerRefreshSeconds zeroSettings = Some 0 \<and> sentryApiUrl zeroSettings = Some [] \<and>
   \<not> isl (getInstallScript (lit ''echo installing'') (lit ''dop_v1/ab-CD_09'') (lit ''my server'')
            zeroSettings) \<and>
   \<not> sublist (lit ''export WATCHTOWER_REFRESH_SECONDS='')
       (projr (getInstallScript (lit ''echo installing'') (lit ''dop_v1/ab-CD_09'')
                 (lit ''my server'') zeroSettings)) \<and>
   \<not> sublist (lit ''export SENTRY_API_URL='')
       (projr (getInstallScript (lit ''echo installing'') (lit ''dop_v1/ab-CD_09'')
                 (lit ''my server'') zeroSettings))"
proof -
  obtain script where script: "getInstallScript (lit ''echo installing'') (lit ''dop_v1/ab-CD_09'')
      (lit ''my server'') zeroSettings = Inr script"
    using example_script by blast
  have name: "bashEscape (lit ''my server'') = lit ''my server''"
    by (rule bashEscape_ascii_identity) (simp add: lit_def isAscii_def)
  have fields: "imageId zeroSettings = lit ''quay.io/outline/shadowbox:stable''"
    "metricsUrl zeroSettings = lit ''https://metrics.example''"
    "sentryApiUrl zeroSettings = Some []" "watchtowerRefreshSeconds zeroSettings = Some 0"
    by (simp_all add: zeroSettings_def)
  have clean1: "\<not> sublist (lit ''export WATCHTOWER_REFRESH_SECONDS='') (lit ''echo installing'')"
    "\<not> sublist (lit ''export WATCHTOWER_REFRESH_SECONDS='') (lit ''my server'')"
    "\<not> sublist (lit ''export WATCHTOWER_REFRESH_SECONDS='') (lit ''quay.io/outline/shadowbox:stable'')"
    "\<not> sublist (lit ''export WATCHTOWER_REFRESH_SECONDS='') (lit ''https://metrics.example'')"
    "lit ''export WATCHTOWER_REFRESH_SECONDS='' \<noteq> []"
    by code_simp+
  have clean2: "\<not> sublist (lit ''export SENTRY_API_URL='') (lit ''echo installing'')"
    "\<not> sublist (lit ''export SENTRY_API_URL='') (lit ''my server'')"
    "\<not> sublist (lit ''export SENTRY_API_URL='') (lit ''quay.io/outline/shadowbox:stable'')"
    "\<not> sublist (lit ''export SENTRY_API_URL='') (lit ''https://metrics.example'')"
    by code_simp+
  have "\<not> sublist (lit ''export WATCHTOWER_REFRESH_SECONDS='') script"
    using watchtower_export_iff [OF script] clean1 by (simp add: name fields)
  moreover have "\<not> sublist (lit ''export SENTRY_API_URL='') script"
    using sentry_export_iff [OF script] clean2 by (simp add: name fields)
  ultimately show ?thesis
    by (simp add: script fields)
qed

end
